theory Spec2Isabelle
  imports Main "HOL-Library.Word"
begin

section \<open>Conventions\<close>

text \<open>
  The development embeds three parts of the guest tools: the backdoor RPC channel
  (bdoorChannel.c), the statistics update of the guest library (vmGuestLib.c) and the
  HGFS vnode operations (vnopscommon.c).

  \<^item> \<open>ASSERT\<close> is compiled out of release builds, so the functions below run past it.
    Where an assertion matters, its condition is a predicate of its own and is proved to
    hold in the states that are reached.
  \<^item> Functions of other files (RpcOut, RpcIn, the request pool, the transport, the
    kernel's \<open>uiomove\<close>) are the environment: their outcomes are inputs of the model,
    either a script of successive outcomes or a function of the request, and every call
    that is made is recorded in a trace.
\<close>

section \<open>The backdoor RPC channel (bdoorChannel.c)\<close>

subsection \<open>The environment: RpcIn and RpcOut\<close>

datatype rpc_call =
    Call_RpcIn_start
  | Call_RpcIn_stop
  | Call_RpcIn_Destruct
  | Call_RpcOut_start
  | Call_RpcOut_stop
  | Call_RpcOut_Destruct
  | Call_RpcOut_send string

text \<open>What one \<open>RpcOut_send\<close> hands back: its result, the reply (\<open>None\<close> is NULL) and
  the reply's length.\<close>

record out_reply =
  or_ret :: bool
  or_reply :: "string option"
  or_replyLen :: nat

text \<open>The host side: the outcomes of the calls still to come, and the calls made so far.
  A script that has run out answers with failure.\<close>

record rpc_host =
  in_starts :: "bool list"
  out_starts :: "bool list"
  out_sends :: "out_reply list"
  calls :: "rpc_call list"

definition log_call :: "rpc_call \<Rightarrow> rpc_host \<Rightarrow> rpc_host" where
  "log_call c h = h\<lparr>calls := calls h @ [c]\<rparr>"

definition RpcIn_start :: "rpc_host \<Rightarrow> bool \<times> rpc_host" where
  "RpcIn_start h =
     (case in_starts h of
        [] \<Rightarrow> (False, log_call Call_RpcIn_start h)
      | r # rs \<Rightarrow> (r, log_call Call_RpcIn_start (h\<lparr>in_starts := rs\<rparr>)))"

definition RpcOut_start :: "rpc_host \<Rightarrow> bool \<times> rpc_host" where
  "RpcOut_start h =
     (case out_starts h of
        [] \<Rightarrow> (False, log_call Call_RpcOut_start h)
      | r # rs \<Rightarrow> (r, log_call Call_RpcOut_start (h\<lparr>out_starts := rs\<rparr>)))"

definition RpcOut_send :: "string \<Rightarrow> rpc_host \<Rightarrow> out_reply \<times> rpc_host" where
  "RpcOut_send data h =
     (case out_sends h of
        [] \<Rightarrow> (\<lparr>or_ret = False, or_reply = None, or_replyLen = 0\<rparr>,
               log_call (Call_RpcOut_send data) h)
      | r # rs \<Rightarrow> (r, log_call (Call_RpcOut_send data) (h\<lparr>out_sends := rs\<rparr>)))"

subsection \<open>The channel\<close>

text \<open>\<open>bd_in\<close> and \<open>bd_out\<close> say whether the pointers \<open>in\<close> and \<open>out\<close> are non-NULL.\<close>

record BackdoorChannel =
  bd_in :: bool
  bd_out :: bool
  inStarted :: bool
  outStarted :: bool

record RpcChannel =
  appName :: "string option"
  chan_private :: BackdoorChannel

definition stop_out :: "bool \<Rightarrow> BackdoorChannel \<Rightarrow> rpc_host \<Rightarrow> BackdoorChannel \<times> rpc_host" where
  "stop_out destroy bdoor h =
     (if bd_out bdoor then
        (let h1 = (if outStarted bdoor then log_call Call_RpcOut_stop h else h);
             (bdoor2, h2) = (if destroy
                             then (bdoor\<lparr>bd_out := False\<rparr>, log_call Call_RpcOut_Destruct h1)
                             else (bdoor, h1))
         in (bdoor2\<lparr>outStarted := False\<rparr>, h2))
      else (bdoor, h))"

definition stop_in :: "bool \<Rightarrow> BackdoorChannel \<Rightarrow> rpc_host \<Rightarrow> BackdoorChannel \<times> rpc_host" where
  "stop_in destroy bdoor h =
     (if bd_in bdoor then
        (let h1 = (if inStarted bdoor then log_call Call_RpcIn_stop h else h);
             (bdoor2, h2) = (if destroy
                             then (bdoor\<lparr>bd_in := False\<rparr>, log_call Call_RpcIn_Destruct h1)
                             else (bdoor, h1))
         in (bdoor2\<lparr>inStarted := False\<rparr>, h2))
      else (bdoor, h))"

definition RpcInStopChannel :: "RpcChannel \<Rightarrow> bool \<Rightarrow> rpc_host \<Rightarrow> RpcChannel \<times> rpc_host" where
  "RpcInStopChannel chan destroy h =
     (let (bdoor1, h1) = stop_out destroy (chan_private chan) h;
          (bdoor2, h2) = stop_in destroy bdoor1 h1
      in (chan\<lparr>chan_private := bdoor2\<rparr>, h2))"

text \<open>The three assertions of \<open>RpcInStopChannel\<close>.\<close>

definition RpcInStopChannel_asserts :: "RpcChannel \<Rightarrow> bool" where
  "RpcInStopChannel_asserts chan =
     (appName chan \<noteq> None \<and>
      (\<not> bd_out (chan_private chan) \<longrightarrow> \<not> outStarted (chan_private chan)) \<and>
      (\<not> bd_in (chan_private chan) \<longrightarrow> \<not> inStarted (chan_private chan)))"

definition RpcInStart :: "RpcChannel \<Rightarrow> rpc_host \<Rightarrow> bool \<times> RpcChannel \<times> rpc_host" where
  "RpcInStart chan h =
     (let bdoor = chan_private chan;
          (ret1, h1) = RpcIn_start h;
          (ret, h3) =
            (if ret1 then
               (let (ret2, h2) = RpcOut_start h1
                in (ret2, if \<not> ret2 then log_call Call_RpcIn_stop h2 else h2))
             else (ret1, h1))
      in (ret, chan\<lparr>chan_private := bdoor\<lparr>inStarted := True, outStarted := True\<rparr>\<rparr>, h3))"

text \<open>The three assertions of \<open>RpcInStart\<close>.\<close>

definition RpcInStart_asserts :: "RpcChannel \<Rightarrow> bool" where
  "RpcInStart_asserts chan =
     (appName chan \<noteq> None \<and> \<not> inStarted (chan_private chan) \<and> \<not> outStarted (chan_private chan))"

definition RpcInShutdown :: "RpcChannel \<Rightarrow> rpc_host \<Rightarrow> RpcChannel \<times> rpc_host" where
  "RpcInShutdown chan h = RpcInStopChannel chan True h"

definition RpcInStop :: "RpcChannel \<Rightarrow> rpc_host \<Rightarrow> RpcChannel \<times> rpc_host" where
  "RpcInStop chan h = RpcInStopChannel chan False h"

text \<open>\<open>sizeof "RpcOut: "\<close> counts the terminating NUL.\<close>

definition sizeof_RpcOut_prefix :: nat where
  "sizeof_RpcOut_prefix = 9"

definition g_str_has_prefix :: "string \<Rightarrow> string \<Rightarrow> bool" where
  "g_str_has_prefix str pre = (take (length pre) str = pre)"

text \<open>The test that sends a failed reply to the restart path.\<close>

definition rpcout_failure :: "out_reply \<Rightarrow> bool" where
  "rpcout_failure r =
     (\<not> or_ret r \<and>
      (case or_reply r of
         None \<Rightarrow> False
       | Some reply \<Rightarrow> or_replyLen r > sizeof_RpcOut_prefix \<and> g_str_has_prefix reply ''RpcOut: ''))"

record send_result =
  sn_ret :: bool
  sn_result :: "string option"
  sn_resultLen :: nat

text \<open>\<open>RpcInSend\<close>, called with both out-parameters non-NULL: \<open>*result\<close> is a copy of the
  first \<open>replyLen\<close> bytes of the reply, \<open>*resultLen\<close> is \<open>replyLen\<close>. The early return
  writes neither.\<close>

definition RpcInSend :: "RpcChannel \<Rightarrow> string \<Rightarrow> rpc_host \<Rightarrow> send_result option \<times> RpcChannel \<times> rpc_host" where
  "RpcInSend chan data h =
     (let bdoor = chan_private chan in
      if \<not> outStarted bdoor then (None, chan, h)
      else
        (let (r1, h1) = RpcOut_send data h;
             (r, bdoor3, h3) =
               (if rpcout_failure r1 then
                  (let h2 = log_call Call_RpcOut_stop h1;
                       (started, h2') = RpcOut_start h2
                   in if started
                      then (let (r2, h4) = RpcOut_send data h2' in (r2, bdoor, h4))
                      else (r1, bdoor\<lparr>outStarted := False\<rparr>, h2'))
                else (r1, bdoor, h1))
         in (Some \<lparr>sn_ret = or_ret r,
                   sn_result = map_option (take (or_replyLen r)) (or_reply r),
                   sn_resultLen = or_replyLen r\<rparr>,
             chan\<lparr>chan_private := bdoor3\<rparr>, h3)))"


text \<open>A caller that stops the channel several times in a row, with \<open>destroy\<close> as given
  for each call. The flag returned says that every call found its assertions true.\<close>

fun stop_repeatedly :: "bool list \<Rightarrow> RpcChannel \<Rightarrow> rpc_host \<Rightarrow> bool \<times> RpcChannel \<times> rpc_host" where
  "stop_repeatedly [] chan h = (True, chan, h)"
| "stop_repeatedly (destroy # ds) chan h =
     (let (chan1, h1) = RpcInStopChannel chan destroy h;
          (ok, chan2, h2) = stop_repeatedly ds chan1 h1
      in (RpcInStopChannel_asserts chan \<and> ok, chan2, h2))"

text \<open>Whether the next \<open>RpcOut_start\<close> on this host succeeds.\<close>

definition next_start :: "rpc_host \<Rightarrow> bool" where
  "next_start h = (case out_starts h of [] \<Rightarrow> False | s # ss \<Rightarrow> s)"

text \<open>A channel on which stopping is safe: its assertions hold, and a direction that
  counts as started still has its object.\<close>

definition stoppable :: "RpcChannel \<Rightarrow> bool" where
  "stoppable chan =
     (appName chan \<noteq> None \<and>
      (inStarted (chan_private chan) \<longrightarrow> bd_in (chan_private chan)) \<and>
      (outStarted (chan_private chan) \<longrightarrow> bd_out (chan_private chan)))"

section \<open>The statistics update of the guest library (vmGuestLib.c)\<close>

subsection \<open>Data\<close>

datatype VMGuestLibError =
    VMGUESTLIB_ERROR_SUCCESS
  | VMGUESTLIB_ERROR_OTHER
  | VMGUESTLIB_ERROR_NOT_RUNNING_IN_VM
  | VMGUESTLIB_ERROR_NOT_ENABLED
  | VMGUESTLIB_ERROR_NOT_AVAILABLE
  | VMGUESTLIB_ERROR_NO_INFO
  | VMGUESTLIB_ERROR_MEMORY
  | VMGUESTLIB_ERROR_BUFFER_TOO_SMALL
  | VMGUESTLIB_ERROR_INVALID_HANDLE
  | VMGUESTLIB_ERROR_INVALID_ARG
  | VMGUESTLIB_ERROR_UNSUPPORTED_VERSION

text \<open>What C leaves undefined and the model has to name: a read through a NULL pointer,
  and a read of the handle's buffer where nothing of the expected layout was stored.\<close>

datatype fault = NullDeref | BadRead

text \<open>A statistic of the version 2 struct: \<open>FIELDNAME.valid\<close> and \<open>FIELDNAME.value\<close>.\<close>

record stat_value =
  sv_valid :: bool
  sv_value :: nat

text \<open>A statistic of version 3: the discriminant \<open>d\<close> and the member of the union.\<close>

record GuestLibV3Stat =
  v3_d :: nat
  v3_valid :: bool
  v3_value :: nat

text \<open>The buffer \<open>data\<close> of the handle: NULL, a \<open>VMGuestLibDataV2\<close> (its fields by
  statistic id) or a \<open>VMGuestLibStatisticsV3\<close> (\<open>numStats\<close> and the array).\<close>

datatype handle_data =
    NoData
  | DataV2 "nat \<Rightarrow> stat_value"
  | StatisticsV3 nat "GuestLibV3Stat list"

record VMGuestLibHandleType =
  h_version :: "32 word"
  h_sessionId :: "64 word"
  h_dataSize :: nat
  h_data :: handle_data

text \<open>One answer of \<open>RpcOut_sendOne\<close>: its result, the reply (\<open>None\<close> is NULL) and its
  length, and what the code reads from the reply buffer through the wire structs: the
  header, the version 2 fields, and the results of the XDR decoder on the version 3
  payload (\<open>None\<close> where the decoder returns FALSE).\<close>

record host_reply =
  hr_ok :: bool
  hr_reply :: "string option"
  hr_replyLen :: nat
  hr_version :: "32 word"
  hr_sessionId :: "64 word"
  hr_v2 :: "nat \<Rightarrow> stat_value"
  hr_v3count :: "nat option"
  hr_v3stats :: "GuestLibV3Stat option list"

text \<open>What the headers and strutil.c provide and the sources at hand do not: the sizes of
  the structs, \<open>GUESTLIB_MAX_STATISTIC_ID\<close>, and \<open>StrUtil_GetNextUintToken\<close>
  applied to the reply from index 0 with delimiter \<open>":"\<close> (\<open>None\<close> where it returns
  FALSE). They are parameters of the model.\<close>

record guestlib_ext =
  sizeof_VMGuestLibDataV2 :: nat
  sizeof_VMGuestLibDataV3 :: nat
  sizeof_VMGuestLibStatisticsV3 :: nat
  sizeof_GuestLibV3Stat :: nat
  GUESTLIB_MAX_STATISTIC_ID :: nat
  StrUtil_GetNextUintToken :: "string \<Rightarrow> 32 word option"

text \<open>Modelled from the spec: \<open>VMGUESTLIB_DATA_VERSION\<close> is declared in vmGuestLibInt.h,
  which is not among the sources. It is the client's highest protocol version; the spec's
  scenario has the client request version 3, and the update decodes the layouts of
  versions 2 and 3 only.\<close>

definition VMGUESTLIB_DATA_VERSION :: "32 word" where
  "VMGUESTLIB_DATA_VERSION = 3"

subsection \<open>The negotiation loop of VMGuestLibUpdateInfo\<close>

text \<open>The state at the end of the \<open>do ... while\<close> loop: \<open>ret\<close>, \<open>hostVersion\<close>, the handle,
  the last reply, the versions requested so far and the replies not yet consumed.\<close>

record negotiated =
  ng_ret :: VMGuestLibError
  ng_hostVersion :: "32 word"
  ng_handle :: VMGuestLibHandleType
  ng_reply :: host_reply
  ng_sent :: "32 word list"
  ng_rest :: "host_reply list"

text \<open>Each iteration sends one request at \<open>hostVersion\<close> and takes the next reply of the
  script; the result is \<open>None\<close> when the script ends before the loop does.\<close>

fun negotiate :: "guestlib_ext \<Rightarrow> VMGuestLibHandleType \<Rightarrow> 32 word \<Rightarrow> 32 word list \<Rightarrow>
    host_reply list \<Rightarrow> (fault + negotiated) option" where
  "negotiate ext handle hostVersion sent [] = None"
| "negotiate ext handle hostVersion sent (r # rs) =
     (let sent1 = sent @ [hostVersion] in
      if hr_ok r then
        (if h_sessionId handle \<noteq> 0 \<and> hr_reply r = None then Some (Inl NullDeref)
         else if h_sessionId handle \<noteq> 0 \<and> h_sessionId handle \<noteq> hr_sessionId r then
           negotiate ext (handle\<lparr>h_sessionId := 0\<rparr>) VMGUESTLIB_DATA_VERSION sent1 rs
         else Some (Inr \<lparr>ng_ret = VMGUESTLIB_ERROR_SUCCESS, ng_hostVersion = hostVersion,
                          ng_handle = handle, ng_reply = r, ng_sent = sent1, ng_rest = rs\<rparr>))
      else if hostVersion = 2 then
        Some (Inr \<lparr>ng_ret = VMGUESTLIB_ERROR_UNSUPPORTED_VERSION, ng_hostVersion = hostVersion,
                    ng_handle = handle, ng_reply = r, ng_sent = sent1, ng_rest = rs\<rparr>)
      else
        (case hr_reply r of
           None \<Rightarrow> Some (Inl NullDeref)
         | Some reply \<Rightarrow>
             if reply = ''Unknown command'' then
               Some (Inr \<lparr>ng_ret = VMGUESTLIB_ERROR_UNSUPPORTED_VERSION,
                           ng_hostVersion = hostVersion, ng_handle = handle, ng_reply = r,
                           ng_sent = sent1, ng_rest = rs\<rparr>)
             else if hostVersion = 3 then
               negotiate ext (handle\<lparr>h_sessionId := 0\<rparr>) 2 sent1 rs
             else
               (case StrUtil_GetNextUintToken ext reply of
                  None \<Rightarrow>
                    Some (Inr \<lparr>ng_ret = VMGUESTLIB_ERROR_OTHER, ng_hostVersion = hostVersion,
                                ng_handle = handle, ng_reply = r, ng_sent = sent1,
                                ng_rest = rs\<rparr>)
                | Some v \<Rightarrow> negotiate ext handle v sent1 rs)))"

text \<open>The loop has ended within \<open>n\<close> requests: it stopped on a NULL reply among the
  first \<open>n\<close>, or it sent \<open>k\<close> requests, \<open>k\<close> between 1 and \<open>n\<close>, consumed as many replies,
  ended on the last of them and, where all of them were failures, ended with the error
  for an unsupported version.\<close>

definition settled :: "nat \<Rightarrow> 32 word list \<Rightarrow> host_reply list \<Rightarrow> (fault + negotiated) option \<Rightarrow> bool" where
  "settled n sent replies res =
     (case res of
        None \<Rightarrow> False
      | Some (Inl f) \<Rightarrow> (\<exists>r \<in> set (take n replies). hr_reply r = None)
      | Some (Inr ng) \<Rightarrow>
          (\<exists>k. 1 \<le> k \<and> k \<le> n \<and> length (ng_sent ng) = length sent + k \<and>
               ng_rest ng = drop k replies \<and> k \<le> length replies \<and>
               ng_reply ng = replies ! (k - 1) \<and>
               ((\<forall>r \<in> set (take k replies). \<not> hr_ok r) \<longrightarrow>
                  ng_ret ng = VMGUESTLIB_ERROR_UNSUPPORTED_VERSION)))"

subsection \<open>Storing the reply in the handle\<close>

text \<open>The loop that unmarshals the statistics: \<open>count\<close>, \<open>numStats\<close>, the results of
  \<open>xdr_GuestLibV3Stat\<close> still to come and the array filled so far. It returns the value
  of \<open>count\<close> at the end and the array. A decoder that has nothing left returns FALSE.\<close>

fun unmarshal_stats :: "nat \<Rightarrow> nat \<Rightarrow> GuestLibV3Stat option list \<Rightarrow> GuestLibV3Stat list \<Rightarrow>
    nat \<times> GuestLibV3Stat list" where
  "unmarshal_stats count numStats [] stats = (count, stats)"
| "unmarshal_stats count numStats (x # xs) stats =
     (if count < numStats then
        (case x of
           None \<Rightarrow> (count, stats)
         | Some st \<Rightarrow>
             if v3_d st \<noteq> count + 1 then (count, stats @ [st])
             else unmarshal_stats (count + 1) numStats xs (stats @ [st]))
      else (count, stats))"

record updated =
  up_ret :: VMGuestLibError
  up_handle :: VMGuestLibHandleType
  up_sent :: "32 word list"
  up_rest :: "host_reply list"

text \<open>The part of \<open>VMGuestLibUpdateInfo\<close> after the loop. \<open>sizeof hostVersion\<close> is 4.\<close>

definition store_reply :: "guestlib_ext \<Rightarrow> negotiated \<Rightarrow> fault + VMGuestLibError \<times> VMGuestLibHandleType" where
  "store_reply ext ng =
     (let ret = ng_ret ng; hostVersion = ng_hostVersion ng; handle = ng_handle ng;
          r = ng_reply ng
      in
      if ret \<noteq> VMGUESTLIB_ERROR_SUCCESS then Inr (ret, handle)
      else if hr_replyLen r < 4 then Inr (VMGUESTLIB_ERROR_OTHER, handle)
      else if hostVersion = 2 then
        (let dataSize = sizeof_VMGuestLibDataV2 ext in
         if hr_reply r = None then Inl NullDeref
         else if hr_version r \<noteq> hostVersion then Inr (VMGUESTLIB_ERROR_OTHER, handle)
         else if hr_replyLen r \<noteq> dataSize then Inr (VMGUESTLIB_ERROR_OTHER, handle)
         else
           Inr (VMGUESTLIB_ERROR_SUCCESS,
                handle\<lparr>h_version := hr_version r,
                       h_sessionId := hr_sessionId r,
                       h_dataSize := (if h_dataSize handle < dataSize then dataSize
                                      else h_dataSize handle),
                       h_data := DataV2 (hr_v2 r)\<rparr>))
      else if hostVersion = 3 then
        (if hr_reply r = None then Inl NullDeref
         else if hr_version r \<noteq> hostVersion then Inr (VMGUESTLIB_ERROR_OTHER, handle)
         else if hr_replyLen r < sizeof_VMGuestLibDataV3 ext then
           Inr (VMGUESTLIB_ERROR_OTHER, handle)
         else
           (let handle1 = handle\<lparr>h_version := hr_version r, h_sessionId := hr_sessionId r\<rparr> in
            case hr_v3count r of
              None \<Rightarrow> Inr (ret, handle1)
            | Some c \<Rightarrow>
                (let count = (if c \<ge> GUESTLIB_MAX_STATISTIC_ID ext
                              then GUESTLIB_MAX_STATISTIC_ID ext - 1 else c);
                     dataSize = sizeof_VMGuestLibStatisticsV3 ext
                                + count * sizeof_GuestLibV3Stat ext;
                     handle2 = handle1\<lparr>h_dataSize := (if h_dataSize handle1 < dataSize
                                                        then dataSize else h_dataSize handle1)\<rparr>;
                     (count', stats) = unmarshal_stats 0 count (hr_v3stats r) []
                 in if count' \<ge> count
                    then Inr (VMGUESTLIB_ERROR_SUCCESS,
                              handle2\<lparr>h_data := StatisticsV3 count stats\<rparr>)
                    else Inr (ret, handle2\<lparr>h_data := StatisticsV3 count stats,
                                            h_sessionId := 0\<rparr>))))
      else Inr (VMGUESTLIB_ERROR_OTHER, handle))"

text \<open>What the caller gets from the state at the end of the loop.\<close>

definition finish_update :: "guestlib_ext \<Rightarrow> (fault + negotiated) option \<Rightarrow> (fault + updated) option" where
  "finish_update ext res =
     (case res of
        None \<Rightarrow> None
      | Some (Inl f) \<Rightarrow> Some (Inl f)
      | Some (Inr ng) \<Rightarrow>
          (case store_reply ext ng of
             Inl f \<Rightarrow> Some (Inl f)
           | Inr (ret, handle') \<Rightarrow>
               Some (Inr \<lparr>up_ret = ret, up_handle = handle', up_sent = ng_sent ng,
                           up_rest = ng_rest ng\<rparr>)))"

text \<open>The version of the first request.\<close>

definition first_version :: "VMGuestLibHandleType \<Rightarrow> 32 word" where
  "first_version handle =
     (if h_version handle = 0 then VMGUESTLIB_DATA_VERSION else h_version handle)"

definition VMGuestLibUpdateInfo :: "guestlib_ext \<Rightarrow> VMGuestLibHandleType \<Rightarrow> host_reply list \<Rightarrow>
    (fault + updated) option" where
  "VMGuestLibUpdateInfo ext handle replies =
     finish_update ext (negotiate ext handle (first_version handle) [] replies)"

text \<open>\<open>VMGuestLib_OpenHandle\<close> returns a zeroed handle (\<open>Util_SafeCalloc\<close>).\<close>

definition VMGuestLib_OpenHandle :: VMGuestLibHandleType where
  "VMGuestLib_OpenHandle = \<lparr>h_version = 0, h_sessionId = 0, h_dataSize = 0, h_data = NoData\<rparr>"

subsection \<open>The accessors\<close>

text \<open>\<open>handle\<close> is \<open>None\<close> for a NULL handle; \<open>outArg\<close> says that the out-pointer is
  non-NULL.\<close>

definition VMGuestLibCheckArgs :: "VMGuestLibHandleType option \<Rightarrow> bool \<Rightarrow> VMGuestLibError" where
  "VMGuestLibCheckArgs handle outArg =
     (case handle of
        None \<Rightarrow> VMGUESTLIB_ERROR_INVALID_HANDLE
      | Some h \<Rightarrow>
          if \<not> outArg then VMGUESTLIB_ERROR_INVALID_ARG
          else if h_sessionId h = 0 then VMGUESTLIB_ERROR_NO_INFO
          else VMGUESTLIB_ERROR_SUCCESS)"

text \<open>An accessor returns the error and what it wrote to \<open>*OUTPTR\<close>, if anything.\<close>

definition VMGUESTLIB_GETSTAT_V2 :: "VMGuestLibHandleType \<Rightarrow> nat \<Rightarrow> fault + VMGuestLibError \<times> nat option" where
  "VMGUESTLIB_GETSTAT_V2 h field =
     (case h_data h of
        NoData \<Rightarrow> Inl NullDeref
      | StatisticsV3 n stats \<Rightarrow> Inl BadRead
      | DataV2 dataV2 \<Rightarrow>
          if \<not> sv_valid (dataV2 field) then Inr (VMGUESTLIB_ERROR_NOT_AVAILABLE, None)
          else Inr (VMGUESTLIB_ERROR_SUCCESS, Some (sv_value (dataV2 field))))"

text \<open>\<open>statIdx\<close> is a \<open>uint32\<close>: statistic id 0 wraps around.\<close>

definition VMGuestLibGetStatisticsV3 :: "VMGuestLibHandleType \<Rightarrow> nat \<Rightarrow>
    fault + VMGuestLibError \<times> GuestLibV3Stat option" where
  "VMGuestLibGetStatisticsV3 h statId =
     (case h_data h of
        NoData \<Rightarrow> Inl NullDeref
      | DataV2 dataV2 \<Rightarrow> Inl BadRead
      | StatisticsV3 numStats stats \<Rightarrow>
          (let statIdx = (if statId = 0 then 2 ^ 32 - 1 else statId - 1) in
           if statIdx \<ge> numStats then Inr (VMGUESTLIB_ERROR_UNSUPPORTED_VERSION, None)
           else if statIdx \<ge> length stats then Inl BadRead
           else Inr (VMGUESTLIB_ERROR_SUCCESS, Some (stats ! statIdx))))"

definition VMGUESTLIB_GETSTAT_V3 :: "VMGuestLibHandleType \<Rightarrow> bool \<Rightarrow> nat \<Rightarrow>
    fault + VMGuestLibError \<times> nat option" where
  "VMGUESTLIB_GETSTAT_V3 h outArg statId =
     (let error = VMGuestLibCheckArgs (Some h) outArg in
      if error \<noteq> VMGUESTLIB_ERROR_SUCCESS then Inr (error, None)
      else
        (case VMGuestLibGetStatisticsV3 h statId of
           Inl f \<Rightarrow> Inl f
         | Inr (error', None) \<Rightarrow> Inr (error', None)
         | Inr (error', Some stat) \<Rightarrow>
             if error' \<noteq> VMGUESTLIB_ERROR_SUCCESS then Inr (error', None)
             else if \<not> v3_valid stat then Inr (VMGUESTLIB_ERROR_NOT_AVAILABLE, None)
             else Inr (VMGUESTLIB_ERROR_SUCCESS, Some (v3_value stat))))"

text \<open>The body shared by the accessors of the integral statistics; each accessor pairs
  the field of the version 2 struct with the statistic id of version 3, so one number
  names both. Past \<open>VMGuestLibCheckArgs\<close> the error is success, and stays so when the
  version is neither 2 nor 3.\<close>

definition VMGUESTLIB_GETFN_BODY :: "VMGuestLibHandleType option \<Rightarrow> bool \<Rightarrow> nat \<Rightarrow>
    fault + VMGuestLibError \<times> nat option" where
  "VMGUESTLIB_GETFN_BODY handle outArg statId =
     (let error = VMGuestLibCheckArgs handle outArg in
      if error \<noteq> VMGUESTLIB_ERROR_SUCCESS then Inr (error, None)
      else
        (case handle of
           None \<Rightarrow> Inr (error, None)
         | Some h \<Rightarrow>
             if h_version h = 2 then VMGUESTLIB_GETSTAT_V2 h statId
             else if h_version h = 3 then VMGUESTLIB_GETSTAT_V3 h outArg statId
             else Inr (error, None)))"


section \<open>The HGFS vnode operations (vnopscommon.c)\<close>

subsection \<open>Constants\<close>

text \<open>The error numbers of FreeBSD's \<open>errno.h\<close>. C's \<open>int\<close> is HOL's \<open>int\<close> here: the values
  are error numbers and byte counts of at most one packet.\<close>

definition EPERM :: int where "EPERM = 1"
definition EIO :: int where "EIO = 5"
definition ENOMEM :: int where "ENOMEM = 12"
definition EACCES :: int where "EACCES = 13"
definition EFAULT :: int where "EFAULT = 14"
definition EXDEV :: int where "EXDEV = 18"
definition EISDIR :: int where "EISDIR = 21"
definition EINVAL :: int where "EINVAL = 22"
definition ENAMETOOLONG :: int where "ENAMETOOLONG = 63"
definition EOVERFLOW :: int where "EOVERFLOW = 84"
definition EPROTO :: int where "EPROTO = 92"

text \<open>Modelled from the spec: \<open>HGFS_IO_MAX\<close> is declared in hgfsProto.h, which is not among
  the sources. It is the spec's fixed maximum I/O unit, the most one READ or WRITE request
  may carry; 4096 is the protocol's value.\<close>

definition HGFS_IO_MAX :: nat where
  "HGFS_IO_MAX = 4096"

text \<open>What the protocol and system headers provide and the sources at hand do not; they
  are parameters of the model: \<open>HGFS_PACKET_MAX\<close>, the macro \<open>HGFS_PAYLOAD_MAX\<close>, the
  reply sizes \<open>HGFS_REP_PAYLOAD_SIZE_V3(reply)\<close> of WRITE and SEARCH_READ,
  \<open>sizeof(HgfsDirEntry)\<close>, \<open>sizeof(struct dirent)\<close> and the size of its \<open>d_name\<close>.\<close>

record hgfs_abi =
  HGFS_PACKET_MAX :: nat
  HGFS_PAYLOAD_MAX :: "nat \<Rightarrow> nat"
  repSize_WriteV3 :: nat
  repSize_SearchReadV3 :: nat
  sizeof_HgfsDirEntry :: nat
  sizeof_dirent :: nat
  sizeof_d_name :: nat

subsection \<open>Requests and the request pool\<close>

datatype HgfsFileType = HGFS_FILE_TYPE_REGULAR | HGFS_FILE_TYPE_DIRECTORY | HGFS_FILE_TYPE_SYMLINK

text \<open>The requests as they are submitted, with the fields the operations fill in.\<close>

datatype hgfs_request =
    Req_ReadV3 (rq_file: "32 word") (rq_offset: "64 word") (rq_requiredSize: "32 word")
  | Req_WriteV3 "32 word" bool "64 word" "32 word" "8 word list"
  | Req_SearchReadV3 "32 word" "32 word"
  | Req_RenameV3 nat nat
  | Req_DeleteV3 nat
  | Req_OpenV3 nat nat nat
  | Req_SearchOpenV3 nat

text \<open>What happens to request buffers: \<open>HgfsKReq_AllocateRequest\<close> returned one or NULL,
  \<open>HgfsSubmitRequest\<close> was called and returned the given error number, or the caller
  called \<open>HgfsKReq_ReleaseRequest\<close>.\<close>

datatype kreq_event =
    Ev_Allocate
  | Ev_AllocateFailed
  | Ev_Submit hgfs_request nat
  | Ev_Release

text \<open>Modelled from the spec: \<open>HgfsSubmitRequest\<close> and the request pool are in files that
  are not among the sources. A submit that returns an error has disposed of the request
  itself (the callers' comments say so); a buffer handed out is back in the pool once it
  was released by the caller or disposed of by a failed submit.\<close>

fun disposed_by_submit :: "kreq_event \<Rightarrow> bool" where
  "disposed_by_submit (Ev_Submit req ret) = (ret \<noteq> 0)"
| "disposed_by_submit e = False"

definition allocations :: "kreq_event list \<Rightarrow> nat" where
  "allocations t = length (filter (\<lambda>e. e = Ev_Allocate) t)"

definition releases :: "kreq_event list \<Rightarrow> nat" where
  "releases t = length (filter (\<lambda>e. e = Ev_Release) t)"

definition disposals :: "kreq_event list \<Rightarrow> nat" where
  "disposals t = length (filter disposed_by_submit t)"

text \<open>The environment of one request: whether the pool hands out a buffer, the error
  numbers returned by \<open>HgfsSubmitRequest\<close> and \<open>HgfsGetStatus\<close>, and the payload size of
  the reply.\<close>

record xchg =
  x_alloc :: bool
  x_submit :: nat
  x_status :: nat
  x_payloadSize :: nat

subsection \<open>The kernel's uio\<close>

text \<open>\<open>uio_data\<close> is the user's memory: for a read the bytes delivered so far, for a write
  the bytes not yet taken, for a readdir the entries delivered so far. \<open>uio_resid\<close> is
  never negative in a request the kernel passes down.\<close>

record 'a uio =
  uio_offset :: int
  uio_resid :: nat
  uio_data :: "'a list"

text \<open>\<open>uiomove(9)\<close> towards the user: \<open>err\<close> is the error number of the copy, decided by the
  environment; without an error \<open>min n uio_resid\<close> items of the buffer \<open>cp\<close> are
  delivered. A copy that fails leaves the uio as it was; the callers give the request up
  then.\<close>

definition uiomove_to_user :: "(nat \<Rightarrow> 'a) \<Rightarrow> nat \<Rightarrow> nat \<Rightarrow> 'a uio \<Rightarrow> nat \<times> 'a uio" where
  "uiomove_to_user cp n err uio =
     (if err \<noteq> 0 then (err, uio)
      else (let cnt = min n (uio_resid uio)
            in (0, uio\<lparr>uio_offset := uio_offset uio + int cnt,
                       uio_resid := uio_resid uio - cnt,
                       uio_data := uio_data uio @ map cp [0..<cnt]\<rparr>)))"

text \<open>\<open>uiomove(9)\<close> from the user: it also returns the bytes taken.\<close>

definition uiomove_from_user :: "nat \<Rightarrow> nat \<Rightarrow> 'a uio \<Rightarrow> nat \<times> 'a list \<times> 'a uio" where
  "uiomove_from_user n err uio =
     (if err \<noteq> 0 then (err, [], uio)
      else (let cnt = min n (uio_resid uio)
            in (0, take cnt (uio_data uio),
                uio\<lparr>uio_offset := uio_offset uio + int cnt,
                    uio_resid := uio_resid uio - cnt,
                    uio_data := drop cnt (uio_data uio)\<rparr>)))"

subsection \<open>Reading\<close>

text \<open>The environment of one READ: the reply's \<open>actualSize\<close>, the contents of the packet
  from \<open>reply->payload\<close> on, and the error number of \<open>uiomove\<close>.\<close>

record read_env = xchg +
  re_actualSize :: "32 word"
  re_payload :: "nat \<Rightarrow> 8 word"
  re_uiomove :: nat

definition HgfsDoRead :: "read_env \<Rightarrow> 32 word \<Rightarrow> 64 word \<Rightarrow> 32 word \<Rightarrow> 8 word uio \<Rightarrow>
    int \<times> 8 word uio \<times> kreq_event list" where
  "HgfsDoRead x handle offset sz uiop =
     (if \<not> x_alloc x then (- ENOMEM, uiop, [Ev_AllocateFailed])
      else
        (let t = [Ev_Allocate, Ev_Submit (Req_ReadV3 handle offset sz) (x_submit x)] in
         if x_submit x \<noteq> 0 then (- int (x_submit x), uiop, t)
         else if x_status x \<noteq> 0 then
           (- (if int (x_status x) \<noteq> EPROTO then EACCES else int (x_status x)),
            uiop, t @ [Ev_Release])
         else if re_actualSize x \<le> sz then
           (if re_actualSize x = 0 then (sint (re_actualSize x), uiop, t @ [Ev_Release])
            else
              (let (ret, uiop') =
                     uiomove_to_user (re_payload x) (unat (re_actualSize x)) (re_uiomove x) uiop
               in if ret \<noteq> 0 then (- EIO, uiop', t @ [Ev_Release])
                  else (sint (re_actualSize x), uiop', t @ [Ev_Release])))
         else (- EPROTO, uiop, t @ [Ev_Release])))"

text \<open>The chunk size of one iteration of the read and write loops, a \<open>uint32_t\<close>.\<close>

definition chunk_size :: "'a uio \<Rightarrow> 32 word" where
  "chunk_size uiop =
     (if uio_resid uiop > HGFS_IO_MAX then of_nat HGFS_IO_MAX else of_nat (uio_resid uiop))"


text \<open>The \<open>do ... while\<close> loop of \<open>HgfsReadInt\<close>. The environment answers each request by
  its offset and size. The loop ends because every further iteration has delivered at
  least one byte.\<close>

function HgfsReadInt_loop :: "(64 word \<Rightarrow> 32 word \<Rightarrow> read_env) \<Rightarrow> 32 word \<Rightarrow> 64 word \<Rightarrow>
    8 word uio \<Rightarrow> kreq_event list \<Rightarrow> int \<times> 8 word uio \<times> kreq_event list" where
  "HgfsReadInt_loop env handle offset uiop t =
     (let sz = chunk_size uiop;
          (ret, uiop', t') = HgfsDoRead (env offset sz) handle offset sz uiop
      in if ret = 0 then (0, uiop', t @ t')
         else if ret < 0 then (- ret, uiop', t @ t')
         else if uio_resid uiop' \<noteq> 0
              then HgfsReadInt_loop env handle (offset + of_int ret) uiop' (t @ t')
              else (0, uiop', t @ t'))"
  by pat_completeness auto
termination
proof (relation "measure (\<lambda>(env, handle, offset, uiop, t). uio_resid uiop)", goal_cases)
  case 1
  show ?case by simp
next
  case (2 env handle offset uiop t sz res ret rest uiop' t')
  let ?x = "env offset (chunk_size uiop)"
  from 2 have d: "HgfsDoRead ?x handle offset (chunk_size uiop) uiop = (ret, uiop', t')"
    and pos: "0 < ret"
    by auto
  from d pos have a: "re_actualSize ?x \<le> chunk_size uiop" and nz: "re_actualSize ?x \<noteq> 0"
    and u: "uiop' = snd (uiomove_to_user (re_payload ?x) (unat (re_actualSize ?x))
                            (re_uiomove ?x) uiop)"
    and ok: "fst (uiomove_to_user (re_payload ?x) (unat (re_actualSize ?x))
                    (re_uiomove ?x) uiop) = 0"
    by (auto simp: HgfsDoRead_def Let_def ENOMEM_def EACCES_def EPROTO_def EIO_def
        split: if_splits prod.splits)
  have c: "unat (chunk_size uiop) \<le> uio_resid uiop"
    by (auto simp: chunk_size_def HGFS_IO_MAX_def unat_of_nat)
  from a have "unat (re_actualSize ?x) \<le> unat (chunk_size uiop)"
    by (simp add: word_le_nat_alt)
  moreover from nz have "unat (re_actualSize ?x) \<noteq> 0"
    by (simp add: unat_eq_0)
  ultimately have "uio_resid uiop' < uio_resid uiop"
    using u ok c by (auto simp: uiomove_to_user_def Let_def split: if_splits)
  then show ?case by simp
qed

text \<open>\<open>is_dir\<close> says that the vnode is a directory; \<open>handle\<close> is \<open>None\<close> when
  \<open>HgfsGetOpenFileHandle\<close> fails.\<close>

definition HgfsReadInt :: "(64 word \<Rightarrow> 32 word \<Rightarrow> read_env) \<Rightarrow> bool \<Rightarrow> 32 word option \<Rightarrow>
    8 word uio \<Rightarrow> int \<times> 8 word uio \<times> kreq_event list" where
  "HgfsReadInt env is_dir handle uiop =
     (if is_dir then (EISDIR, uiop, [])
      else if uio_offset uiop < 0 then (EINVAL, uiop, [])
      else (case handle of
              None \<Rightarrow> (EINVAL, uiop, [])
            | Some h \<Rightarrow> HgfsReadInt_loop env h (of_int (uio_offset uiop)) uiop []))"

subsection \<open>Writing\<close>

record write_env = xchg +
  we_actualSize :: "32 word"
  we_uiomove :: nat

text \<open>\<open>io_append\<close> is \<open>ioflag & IO_APPEND\<close>.\<close>

definition HgfsDoWrite :: "hgfs_abi \<Rightarrow> write_env \<Rightarrow> 32 word \<Rightarrow> bool \<Rightarrow> 64 word \<Rightarrow> 32 word \<Rightarrow>
    8 word uio \<Rightarrow> int \<times> 8 word uio \<times> kreq_event list" where
  "HgfsDoWrite abi x handle io_append offset sz uiop =
     (if \<not> x_alloc x then (- ENOMEM, uiop, [Ev_AllocateFailed])
      else
        (let (ret, payload, uiop') = uiomove_from_user (unat sz) (we_uiomove x) uiop in
         if ret \<noteq> 0 then (- EIO, uiop', [Ev_Allocate, Ev_Release])
         else
           (let t = [Ev_Allocate,
                     Ev_Submit (Req_WriteV3 handle io_append offset sz payload) (x_submit x)]
            in
            if x_submit x \<noteq> 0 then (- int (x_submit x), uiop', t)
            else if x_status x \<noteq> 0 then
              (- (if int (x_status x) \<noteq> EPROTO then EACCES else int (x_status x)),
               uiop', t @ [Ev_Release])
            else if x_payloadSize x \<noteq> repSize_WriteV3 abi then
              (- EPROTO, uiop', t @ [Ev_Release])
            else (sint (we_actualSize x), uiop', t @ [Ev_Release]))))"

text \<open>The \<open>do ... while\<close> loop of \<open>HgfsWriteInt\<close>. Every iteration that goes on has taken a
  whole chunk from the user.\<close>

function HgfsWriteInt_loop :: "hgfs_abi \<Rightarrow> (64 word \<Rightarrow> 32 word \<Rightarrow> write_env) \<Rightarrow> 32 word \<Rightarrow> bool \<Rightarrow>
    64 word \<Rightarrow> 8 word uio \<Rightarrow> kreq_event list \<Rightarrow> int \<times> 8 word uio \<times> kreq_event list" where
  "HgfsWriteInt_loop abi env handle io_append offset uiop t =
     (let sz = chunk_size uiop;
          (ret, uiop', t') = HgfsDoWrite abi (env offset sz) handle io_append offset sz uiop
      in if ret < 0 then (- ret, uiop', t @ t')
         else if uio_resid uiop' \<noteq> 0
              then HgfsWriteInt_loop abi env handle io_append (offset + of_int ret) uiop' (t @ t')
              else (0, uiop', t @ t'))"
  by pat_completeness auto
termination
proof (relation "measure (\<lambda>(abi, env, handle, io_append, offset, uiop, t). uio_resid uiop)",
    goal_cases)
  case 1
  show ?case by simp
next
  case (2 abi env handle io_append offset uiop t sz res ret rest uiop' t')
  let ?x = "env offset (chunk_size uiop)"
  from 2 have d: "HgfsDoWrite abi ?x handle io_append offset (chunk_size uiop) uiop
                    = (ret, uiop', t')"
    and pos: "\<not> ret < 0" and more: "uio_resid uiop' \<noteq> 0"
    by auto
  from d pos have u: "uiop' = snd (snd (uiomove_from_user (unat (chunk_size uiop))
                                         (we_uiomove ?x) uiop))"
    and ok: "fst (uiomove_from_user (unat (chunk_size uiop)) (we_uiomove ?x) uiop) = 0"
    by (auto simp: HgfsDoWrite_def Let_def ENOMEM_def EACCES_def EPROTO_def EIO_def
        split: if_splits prod.splits)
  have c: "unat (chunk_size uiop) = min (uio_resid uiop) HGFS_IO_MAX"
    by (auto simp: chunk_size_def HGFS_IO_MAX_def unat_of_nat)
  have "uio_resid uiop' < uio_resid uiop"
    using u ok more c
    by (auto simp: uiomove_from_user_def Let_def HGFS_IO_MAX_def split: if_splits)
  then show ?case by simp
qed

definition HgfsWriteInt :: "hgfs_abi \<Rightarrow> (64 word \<Rightarrow> 32 word \<Rightarrow> write_env) \<Rightarrow> 32 word option \<Rightarrow>
    bool \<Rightarrow> 8 word uio \<Rightarrow> int \<times> 8 word uio \<times> kreq_event list" where
  "HgfsWriteInt abi env handle io_append uiop =
     (if uio_resid uiop = 0 then (0, uiop, [])
      else if uio_offset uiop < 0 then (EINVAL, uiop, [])
      else (case handle of
              None \<Rightarrow> (EINVAL, uiop, [])
            | Some h \<Rightarrow>
                HgfsWriteInt_loop abi env h io_append (of_int (uio_offset uiop)) uiop []))"


subsection \<open>A server that holds a file\<close>

text \<open>The reference of the refinement claim, in the spec's words: a single unchunked
  read of the range from \<open>off\<close> to \<open>off + len\<close> of the file.\<close>

definition unchunked_read :: "8 word list \<Rightarrow> nat \<Rightarrow> nat \<Rightarrow> 8 word list" where
  "unchunked_read file off len = take len (drop off file)"

text \<open>A server that answers READ from the file it holds. It may return fewer bytes than
  were asked for (\<open>short\<close> says how many it would like to return), but at least one byte
  where the file has one; it returns none at or past the end of the file. \<open>served\<close> is
  the number of bytes of one answer.\<close>

definition served :: "8 word list \<Rightarrow> (64 word \<Rightarrow> 32 word \<Rightarrow> nat) \<Rightarrow> 64 word \<Rightarrow> 32 word \<Rightarrow> nat" where
  "served file short offset sz =
     (let want = min (unat sz) (length file - unat offset)
      in if want = 0 then 0 else max 1 (min (short offset sz) want))"

definition file_server :: "8 word list \<Rightarrow> (64 word \<Rightarrow> 32 word \<Rightarrow> nat) \<Rightarrow> 64 word \<Rightarrow> 32 word \<Rightarrow> read_env" where
  "file_server file short offset sz =
     \<lparr>x_alloc = True, x_submit = 0, x_status = 0,
      x_payloadSize = served file short offset sz,
      re_actualSize = of_nat (served file short offset sz),
      re_payload = (\<lambda>i. file ! (unat offset + i)),
      re_uiomove = 0\<rparr>"

text \<open>The sizes asked for by the READ requests of a trace.\<close>

fun read_sizes :: "kreq_event list \<Rightarrow> nat list" where
  "read_sizes [] = []"
| "read_sizes (Ev_Submit (Req_ReadV3 h off sz) r # t) = unat sz # read_sizes t"
| "read_sizes (e # t) = read_sizes t"

subsection \<open>Reading a directory\<close>

text \<open>The environment of one SEARCH_READ and of the iteration of the readdir loop that
  issues it: the reply's \<open>dirent->fileName.length\<close>, the bytes at
  \<open>dirent->fileName.name\<close> and \<open>dirent->attr.type\<close>; then the result of
  \<open>HgfsNameFromWireEncoding\<close> and the name it wrote, the result of \<open>HgfsMakeFullName\<close>,
  the node id and the error number of \<open>uiomove\<close>.\<close>

record dir_env = xchg +
  de_nameLength :: "32 word"
  de_name :: "nat \<Rightarrow> char"
  de_type :: HgfsFileType
  de_decode :: int
  de_decoded :: string
  de_fullName :: int
  de_fileno :: nat
  de_uiomove :: nat

record entry_result =
  er_ret :: int
  er_nameOut :: "string option"
  er_type :: "HgfsFileType option"
  er_done :: bool
  er_trace :: "kreq_event list"

text \<open>\<open>nameOut\<close> and \<open>type\<close> are \<open>None\<close> where the function does not write them;
  \<open>done\<close> comes in with the caller's value.\<close>

definition HgfsGetNextDirEntry :: "hgfs_abi \<Rightarrow> dir_env \<Rightarrow> 32 word \<Rightarrow> 32 word \<Rightarrow> nat \<Rightarrow> bool \<Rightarrow>
    entry_result" where
  "HgfsGetNextDirEntry abi x handle offset nameSize done =
     (if \<not> x_alloc x then
        \<lparr>er_ret = ENOMEM, er_nameOut = None, er_type = None, er_done = done,
         er_trace = [Ev_AllocateFailed]\<rparr>
      else
        (let t = [Ev_Allocate, Ev_Submit (Req_SearchReadV3 handle offset) (x_submit x)];
             repSize = repSize_SearchReadV3 abi + sizeof_HgfsDirEntry abi
         in
         if x_submit x \<noteq> 0 then
           \<lparr>er_ret = int (x_submit x), er_nameOut = None, er_type = None, er_done = done,
            er_trace = t\<rparr>
         else if x_status x \<noteq> 0 then
           \<lparr>er_ret = (if int (x_status x) \<noteq> EPROTO then EINVAL else int (x_status x)),
            er_nameOut = None, er_type = None, er_done = done, er_trace = t @ [Ev_Release]\<rparr>
         else if x_payloadSize x < repSize then
           \<lparr>er_ret = EFAULT, er_nameOut = None, er_type = None, er_done = done,
            er_trace = t @ [Ev_Release]\<rparr>
         else if de_nameLength x \<le> 0 then
           \<lparr>er_ret = 0, er_nameOut = None, er_type = None, er_done = True,
            er_trace = t @ [Ev_Release]\<rparr>
         else if unat (de_nameLength x) \<ge> nameSize
                 \<or> unat (de_nameLength x) > HGFS_PAYLOAD_MAX abi repSize then
           \<lparr>er_ret = EOVERFLOW, er_nameOut = None, er_type = None, er_done = done,
            er_trace = t @ [Ev_Release]\<rparr>
         else
           \<lparr>er_ret = 0,
            er_nameOut = Some (map (de_name x) [0..<unat (de_nameLength x)]),
            er_type = Some (de_type x), er_done = done, er_trace = t @ [Ev_Release]\<rparr>))"

datatype dirent_type = DT_REG | DT_DIR | DT_UNKNOWN

record dirent =
  d_fileno :: nat
  d_reclen :: nat
  d_type :: dirent_type
  d_namlen :: nat
  d_name :: string

text \<open>\<open>uiomove(9)\<close> of one struct of \<open>n\<close> bytes towards the user.\<close>

definition uiomove_struct :: "'a \<Rightarrow> nat \<Rightarrow> nat \<Rightarrow> 'a uio \<Rightarrow> nat \<times> 'a uio" where
  "uiomove_struct a n err uio =
     (if err \<noteq> 0 then (err, uio)
      else (let cnt = min n (uio_resid uio)
            in (0, uio\<lparr>uio_offset := uio_offset uio + int cnt,
                       uio_resid := uio_resid uio - cnt,
                       uio_data := uio_data uio @ [a]\<rparr>)))"

text \<open>What \<open>HgfsReaddirInt\<close> leaves: its result, the uio, \<open>*eofp\<close> (\<open>None\<close> for a NULL
  pointer), the trace and the answers of the server that were not used.\<close>

record readdir_result =
  rd_ret :: int
  rd_uio :: "dirent uio"
  rd_eof :: "bool option"
  rd_trace :: "kreq_event list"
  rd_rest :: "dir_env list"

text \<open>The \<open>for (;;)\<close> loop. Each iteration takes the next answer of the script; the result
  is \<open>None\<close> when the script ends before the loop does. The two exits through \<open>goto out\<close>
  leave the offset of the uio as it is, the two \<open>break\<close>s set it to the loop's offset.\<close>

fun HgfsReaddirInt_loop :: "hgfs_abi \<Rightarrow> 32 word \<Rightarrow> dir_env list \<Rightarrow> 64 word \<Rightarrow> bool \<Rightarrow> dirent uio \<Rightarrow>
    bool option \<Rightarrow> kreq_event list \<Rightarrow> readdir_result option" where
  "HgfsReaddirInt_loop abi handle [] offset done uiop eofp t = None"
| "HgfsReaddirInt_loop abi handle (x # xs) offset done uiop eofp t =
     (let e = HgfsGetNextDirEntry abi x handle (ucast offset) (sizeof_d_name abi) done;
          fileType = (case er_type e of None \<Rightarrow> HGFS_FILE_TYPE_REGULAR | Some ty \<Rightarrow> ty);
          t1 = t @ er_trace e
      in
      if er_ret e = EOVERFLOW then
        HgfsReaddirInt_loop abi handle xs (offset + 1) (er_done e) uiop eofp t1
      else if er_ret e \<noteq> 0 then
        Some \<lparr>rd_ret = er_ret e, rd_uio = uiop, rd_eof = eofp, rd_trace = t1, rd_rest = xs\<rparr>
      else if er_done e then
        Some \<lparr>rd_ret = er_ret e, rd_uio = uiop\<lparr>uio_offset := sint offset\<rparr>,
              rd_eof = map_option (\<lambda>b. True) eofp, rd_trace = t1, rd_rest = xs\<rparr>
      else if de_decode x < 0 then
        HgfsReaddirInt_loop abi handle xs (offset + 1) (er_done e) uiop eofp t1
      else
        (let dirp = \<lparr>d_fileno = 0, d_reclen = sizeof_dirent abi,
                     d_type = (if fileType = HGFS_FILE_TYPE_REGULAR then DT_REG
                               else if fileType = HGFS_FILE_TYPE_DIRECTORY then DT_DIR
                               else DT_UNKNOWN),
                     d_namlen = nat (de_decode x), d_name = de_decoded x\<rparr>
         in
         if d_reclen dirp > uio_resid uiop then
           Some \<lparr>rd_ret = 0, rd_uio = uiop\<lparr>uio_offset := sint offset\<rparr>, rd_eof = eofp,
                 rd_trace = t1, rd_rest = xs\<rparr>
         else if de_fullName x < 0 then
           HgfsReaddirInt_loop abi handle xs (offset + 1) (er_done e) uiop eofp t1
         else
           (let (ret, uiop') =
                  uiomove_struct (dirp\<lparr>d_fileno := de_fileno x\<rparr>) (d_reclen dirp)
                    (de_uiomove x) uiop
            in if ret \<noteq> 0 then
                 Some \<lparr>rd_ret = int ret, rd_uio = uiop', rd_eof = eofp, rd_trace = t1,
                       rd_rest = xs\<rparr>
               else HgfsReaddirInt_loop abi handle xs (offset + 1) (er_done e) uiop' eofp t1)))"

text \<open>\<open>handle\<close> is \<open>None\<close> when \<open>HgfsGetOpenFileHandle\<close> fails; \<open>malloc_ok\<close> says that
  \<open>os_malloc\<close> returned a buffer.\<close>

definition HgfsReaddirInt :: "hgfs_abi \<Rightarrow> 32 word option \<Rightarrow> bool \<Rightarrow> dir_env list \<Rightarrow> dirent uio \<Rightarrow>
    bool option \<Rightarrow> readdir_result option" where
  "HgfsReaddirInt abi handle malloc_ok xs uiop eofp =
     (if uio_offset uiop < 0 then
        Some \<lparr>rd_ret = EINVAL, rd_uio = uiop, rd_eof = eofp, rd_trace = [], rd_rest = xs\<rparr>
      else
        (case handle of
           None \<Rightarrow>
             Some \<lparr>rd_ret = EINVAL, rd_uio = uiop, rd_eof = eofp, rd_trace = [], rd_rest = xs\<rparr>
         | Some h \<Rightarrow>
             if \<not> malloc_ok then
               Some \<lparr>rd_ret = ENOMEM, rd_uio = uiop, rd_eof = eofp, rd_trace = [],
                     rd_rest = xs\<rparr>
             else HgfsReaddirInt_loop abi h xs (of_int (uio_offset uiop)) False uiop eofp []))"


subsection \<open>Rename, delete and open\<close>

text \<open>The environment of \<open>HgfsRenameInt\<close>: whether both vnodes are on one mount,
  \<open>HGFS_REQ_PAYLOAD_SIZE_V3(request)\<close>, whether \<open>os_malloc\<close> returned a buffer, the length
  of the source path, and the results of \<open>HgfsMakeFullName\<close> and of the two calls of
  \<open>HgfsNameToWireEncoding\<close>.\<close>

record rename_env = xchg +
  rn_same_mount :: bool
  rn_reqSize :: "32 word"
  rn_malloc :: bool
  rn_srcFullPathLen :: "32 word"
  rn_makeFullName :: int
  rn_encode_old :: int
  rn_encode_new :: int

definition HgfsRenameInt :: "hgfs_abi \<Rightarrow> rename_env \<Rightarrow> int \<times> kreq_event list" where
  "HgfsRenameInt abi x =
     (if \<not> rn_same_mount x then (EXDEV, [])
      else if \<not> x_alloc x then (ENOMEM, [Ev_AllocateFailed])
      else if \<not> rn_malloc x then (ENOMEM, [Ev_Allocate, Ev_Release])
      else if rn_makeFullName x < 0 then (ENAMETOOLONG, [Ev_Allocate, Ev_Release])
      else
        (let dstFullPathLen = (of_int (rn_makeFullName x) :: 32 word) in
         if rn_reqSize x + rn_srcFullPathLen x + dstFullPathLen > of_nat (HGFS_PACKET_MAX abi)
         then (EPROTO, [Ev_Allocate, Ev_Release])
         else if rn_encode_old x < 0 then (- rn_encode_old x, [Ev_Allocate, Ev_Release])
         else if rn_encode_new x < 0 then (- rn_encode_new x, [Ev_Allocate, Ev_Release])
         else
           (let t = [Ev_Allocate,
                     Ev_Submit (Req_RenameV3 (nat (rn_encode_old x)) (nat (rn_encode_new x)))
                       (x_submit x)]
            in if x_submit x \<noteq> 0 then (int (x_submit x), t)
               else if x_status x \<noteq> 0 then (int (x_status x), t @ [Ev_Release])
               else (int (x_status x), t @ [Ev_Release]))))"

record delete_env = xchg +
  dl_encode :: int

definition HgfsDelete :: "delete_env \<Rightarrow> int \<times> kreq_event list" where
  "HgfsDelete x =
     (if \<not> x_alloc x then (ENOMEM, [Ev_AllocateFailed])
      else if dl_encode x < 0 then (- dl_encode x, [Ev_Allocate, Ev_Release])
      else
        (let t = [Ev_Allocate, Ev_Submit (Req_DeleteV3 (nat (dl_encode x))) (x_submit x)]
         in if x_submit x \<noteq> 0 then (int (x_submit x), t)
            else if x_status x \<noteq> 0 then (int (x_status x), t @ [Ev_Release])
            else (int (x_status x), t @ [Ev_Release])))"

text \<open>The environment of \<open>HgfsFileOpen\<close>: the results of \<open>HgfsAttemptToCreateShare\<close>,
  \<open>HgfsHandleIsSet\<close>, \<open>HgfsGetOpenMode\<close>, \<open>HgfsGetOpenFlags\<close>,
  \<open>HgfsNameToWireEncoding\<close> and \<open>HgfsSetOpenFileHandle\<close>.\<close>

record open_env = xchg +
  op_createShare :: bool
  op_handleIsSet :: bool
  op_openMode :: int
  op_openFlags :: int
  op_encode :: int
  op_setHandle :: nat

definition HgfsFileOpen :: "open_env \<Rightarrow> int \<times> kreq_event list" where
  "HgfsFileOpen x =
     (if op_createShare x then (EPERM, [])
      else if op_handleIsSet x then (EIO, [])
      else if \<not> x_alloc x then (ENOMEM, [Ev_AllocateFailed])
      else if op_openMode x < 0 then (EINVAL, [Ev_Allocate, Ev_Release])
      else if op_openFlags x < 0 then (EINVAL, [Ev_Allocate, Ev_Release])
      else if op_encode x < 0 then (- op_encode x, [Ev_Allocate, Ev_Release])
      else
        (let t = [Ev_Allocate,
                  Ev_Submit (Req_OpenV3 (nat (op_openMode x)) (nat (op_openFlags x))
                               (nat (op_encode x))) (x_submit x)]
         in if x_submit x \<noteq> 0 then (int (x_submit x), t)
            else if x_status x \<noteq> 0 then (int (x_status x), t @ [Ev_Release])
            else if op_setHandle x \<noteq> 0 then (EINVAL, t @ [Ev_Release])
            else (0, t @ [Ev_Release])))"

text \<open>\<open>HgfsDirOpen\<close> as FreeBSD builds it: a vnode that has a handle already gives
  \<open>EIO\<close>.\<close>

definition HgfsDirOpen :: "open_env \<Rightarrow> int \<times> kreq_event list" where
  "HgfsDirOpen x =
     (if op_handleIsSet x then (EIO, [])
      else if \<not> x_alloc x then (ENOMEM, [Ev_AllocateFailed])
      else if op_encode x < 0 then (- op_encode x, [Ev_Allocate, Ev_Release])
      else
        (let t = [Ev_Allocate, Ev_Submit (Req_SearchOpenV3 (nat (op_encode x))) (x_submit x)]
         in if x_submit x \<noteq> 0 then (int (x_submit x), t)
            else if x_status x \<noteq> 0 then (int (x_status x), t @ [Ev_Release])
            else if op_setHandle x \<noteq> 0 then (EINVAL, t @ [Ev_Release])
            else (0, t @ [Ev_Release])))"

text \<open>The life of one request buffer, as the trace of one operation shows it: nothing was
  asked of the pool; or the pool had no buffer; or the buffer was released before any
  submit; or the submit failed and disposed of it, and the caller did not release it; or
  the submit succeeded and the caller released it.\<close>

fun lifecycle_ok :: "kreq_event list \<Rightarrow> bool" where
  "lifecycle_ok [] = True"
| "lifecycle_ok [Ev_AllocateFailed] = True"
| "lifecycle_ok [Ev_Allocate, Ev_Release] = True"
| "lifecycle_ok [Ev_Allocate, Ev_Submit req ret] = (ret \<noteq> 0)"
| "lifecycle_ok [Ev_Allocate, Ev_Submit req ret, Ev_Release] = (ret = 0)"
| "lifecycle_ok t = False"

text \<open>The buffer is accounted for: the trace has one of the five shapes, and so every
  buffer handed out was released by the caller or disposed of by a failed submit,
  once.\<close>

definition request_accounted :: "kreq_event list \<Rightarrow> bool" where
  "request_accounted t =
     (lifecycle_ok t \<and> allocations t \<le> 1 \<and> releases t + disposals t = allocations t)"

section \<open>Concrete inputs\<close>

text \<open>A channel as \<open>RpcChannel_NewBackdoorChannel\<close> makes it, and the same channel once
  started.\<close>

definition chan_new :: RpcChannel where
  "chan_new = \<lparr>appName = Some ''toolbox'',
               chan_private = \<lparr>bd_in = True, bd_out = True,
                                inStarted = False, outStarted = False\<rparr>\<rparr>"

definition chan_up :: RpcChannel where
  "chan_up = \<lparr>appName = Some ''toolbox'',
              chan_private = \<lparr>bd_in = True, bd_out = True,
                               inStarted = True, outStarted = True\<rparr>\<rparr>"

text \<open>A host on which the inbound loop starts and the outbound channel does not.\<close>

definition host_partial :: rpc_host where
  "host_partial = \<lparr>in_starts = [True], out_starts = [False], out_sends = [], calls = []\<rparr>"

text \<open>Replies of RpcOut: a failure with the text of a closed channel, a failure whose text
  is nine bytes long, and a success.\<close>

definition reply_desync :: out_reply where
  "reply_desync = \<lparr>or_ret = False, or_reply = Some ''RpcOut: Unable to send the RPCI command'',
                   or_replyLen = 39\<rparr>"

definition reply_short :: out_reply where
  "reply_short = \<lparr>or_ret = False, or_reply = Some ''RpcOut: x'', or_replyLen = 9\<rparr>"

definition reply_ok :: out_reply where
  "reply_ok = \<lparr>or_ret = True, or_reply = Some ''1 '', or_replyLen = 2\<rparr>"

text \<open>Hosts for a send: the channel cannot be restarted; the channel restarts and the
  second send succeeds; the first failure has the short text.\<close>

definition host_no_restart :: rpc_host where
  "host_no_restart = \<lparr>in_starts = [], out_starts = [False],
                      out_sends = [reply_desync, reply_ok], calls = []\<rparr>"

definition host_restart :: rpc_host where
  "host_restart = \<lparr>in_starts = [], out_starts = [True],
                   out_sends = [reply_desync, reply_ok], calls = []\<rparr>"

definition host_short :: rpc_host where
  "host_short = \<lparr>in_starts = [], out_starts = [True],
                 out_sends = [reply_short, reply_ok], calls = []\<rparr>"

text \<open>Sizes for the guest library; no reply carries a version token.\<close>

definition ext0 :: guestlib_ext where
  "ext0 = \<lparr>sizeof_VMGuestLibDataV2 = 600, sizeof_VMGuestLibDataV3 = 16,
           sizeof_VMGuestLibStatisticsV3 = 4, sizeof_GuestLibV3Stat = 24,
           GUESTLIB_MAX_STATISTIC_ID = 19, StrUtil_GetNextUintToken = (\<lambda>reply. None)\<rparr>"

text \<open>Replies of a host that knows version 2 only: the failure for a request at version
  3, and the statistics of version 2, of which the first is valid.\<close>

definition reply_unsupported :: host_reply where
  "reply_unsupported =
     \<lparr>hr_ok = False, hr_reply = Some ''Unsupported version'', hr_replyLen = 19,
      hr_version = 0, hr_sessionId = 0,
      hr_v2 = (\<lambda>statId. \<lparr>sv_valid = False, sv_value = 0\<rparr>),
      hr_v3count = None, hr_v3stats = []\<rparr>"

definition reply_v2 :: host_reply where
  "reply_v2 =
     \<lparr>hr_ok = True, hr_reply = Some [], hr_replyLen = 600,
      hr_version = 2, hr_sessionId = 4660,
      hr_v2 = (\<lambda>statId. \<lparr>sv_valid = (statId = 1), sv_value = 2000\<rparr>),
      hr_v3count = None, hr_v3stats = []\<rparr>"

text \<open>A handle updated in an earlier session, and a reply of version 3 with one
  statistic.\<close>

definition handle_old :: VMGuestLibHandleType where
  "handle_old = \<lparr>h_version = 2, h_sessionId = 7, h_dataSize = 600,
                 h_data = DataV2 (\<lambda>statId. \<lparr>sv_valid = False, sv_value = 0\<rparr>)\<rparr>"

definition reply_v3 :: host_reply where
  "reply_v3 =
     \<lparr>hr_ok = True, hr_reply = Some [], hr_replyLen = 64,
      hr_version = 3, hr_sessionId = 4660,
      hr_v2 = (\<lambda>statId. \<lparr>sv_valid = False, sv_value = 0\<rparr>),
      hr_v3count = Some 1,
      hr_v3stats = [Some \<lparr>v3_d = 1, v3_valid = True, v3_value = 2000\<rparr>]\<rparr>"

text \<open>Sizes for HGFS, and a server that answers every WRITE with a count of 5000 bytes
  written, whatever was asked.\<close>

definition abi0 :: hgfs_abi where
  "abi0 = \<lparr>HGFS_PACKET_MAX = 6144, HGFS_PAYLOAD_MAX = (\<lambda>n. 6144 - n),
           repSize_WriteV3 = 20, repSize_SearchReadV3 = 24, sizeof_HgfsDirEntry = 100,
           sizeof_dirent = 264, sizeof_d_name = 256\<rparr>"

definition writer_5000 :: "64 word \<Rightarrow> 32 word \<Rightarrow> write_env" where
  "writer_5000 offset sz =
     \<lparr>x_alloc = True, x_submit = 0, x_status = 0, x_payloadSize = 20,
      we_actualSize = 5000, we_uiomove = 0\<rparr>"

text \<open>A write of 4097 zero bytes at offset 0.\<close>

definition uio_4097 :: "8 word uio" where
  "uio_4097 = \<lparr>uio_offset = 0, uio_resid = 4097, uio_data = replicate 4097 0\<rparr>"

text \<open>A file of ten bytes, a server that returns at most three bytes for a request, and a
  read of six bytes at offset 2.\<close>

definition file10 :: "8 word list" where
  "file10 = [10, 11, 12, 13, 14, 15, 16, 17, 18, 19]"

definition three_at_most :: "64 word \<Rightarrow> 32 word \<Rightarrow> nat" where
  "three_at_most offset sz = 3"

definition uio_read6 :: "8 word uio" where
  "uio_read6 = \<lparr>uio_offset = 2, uio_resid = 6, uio_data = []\<rparr>"

text \<open>Answers to SEARCH_READ: an entry named \<open>a\<close>; an entry whose name of 300 bytes does
  not fit the 256 bytes of \<open>d_name\<close>; an entry whose name cannot be decoded; and the
  empty name that ends a directory.\<close>

definition entry_a :: dir_env where
  "entry_a = \<lparr>x_alloc = True, x_submit = 0, x_status = 0, x_payloadSize = 125,
              de_nameLength = 1, de_name = (\<lambda>i. CHR ''a''), de_type = HGFS_FILE_TYPE_REGULAR,
              de_decode = 1, de_decoded = ''a'', de_fullName = 5, de_fileno = 42,
              de_uiomove = 0\<rparr>"

definition entry_long :: dir_env where
  "entry_long = \<lparr>x_alloc = True, x_submit = 0, x_status = 0, x_payloadSize = 424,
                 de_nameLength = 300, de_name = (\<lambda>i. CHR ''b''),
                 de_type = HGFS_FILE_TYPE_REGULAR,
                 de_decode = 300, de_decoded = [], de_fullName = 304, de_fileno = 43,
                 de_uiomove = 0\<rparr>"

definition entry_undecodable :: dir_env where
  "entry_undecodable = \<lparr>x_alloc = True, x_submit = 0, x_status = 0, x_payloadSize = 126,
                        de_nameLength = 2, de_name = (\<lambda>i. CHR 0xFF),
                        de_type = HGFS_FILE_TYPE_REGULAR,
                        de_decode = - 1, de_decoded = [], de_fullName = 6, de_fileno = 44,
                        de_uiomove = 0\<rparr>"

definition entry_end :: dir_env where
  "entry_end = \<lparr>x_alloc = True, x_submit = 0, x_status = 0, x_payloadSize = 124,
                de_nameLength = 0, de_name = (\<lambda>i. CHR 0x00),
                de_type = HGFS_FILE_TYPE_REGULAR,
                de_decode = 0, de_decoded = [], de_fullName = 4, de_fileno = 0,
                de_uiomove = 0\<rparr>"

text \<open>The entry that \<open>entry_a\<close> becomes, and a user buffer with room for three entries.\<close>

definition dirent_a :: dirent where
  "dirent_a = \<lparr>d_fileno = 42, d_reclen = 264, d_type = DT_REG, d_namlen = 1, d_name = ''a''\<rparr>"

definition uio_dir :: "dirent uio" where
  "uio_dir = \<lparr>uio_offset = 0, uio_resid = 792, uio_data = []\<rparr>"

section \<open>Theorems: the backdoor RPC channel\<close>

subsection \<open>Start and stop\<close>

lemma RpcInStopChannel_private:
  "chan_private (fst (RpcInStopChannel chan d h)) =
     (chan_private chan)\<lparr>
        bd_in := bd_in (chan_private chan) \<and> \<not> d,
        bd_out := bd_out (chan_private chan) \<and> \<not> d,
        inStarted := inStarted (chan_private chan) \<and> \<not> bd_in (chan_private chan),
        outStarted := outStarted (chan_private chan) \<and> \<not> bd_out (chan_private chan)\<rparr>"
  by (auto simp add: RpcInStopChannel_def stop_out_def stop_in_def Let_def
      split: prod.splits if_splits)

lemma RpcInStopChannel_appName:
  "appName (fst (RpcInStopChannel chan d h)) = appName chan"
  by (simp add: RpcInStopChannel_def Let_def split: prod.splits)

lemma stoppable_asserts: "stoppable chan \<Longrightarrow> RpcInStopChannel_asserts chan"
  by (auto simp: stoppable_def RpcInStopChannel_asserts_def)

lemma stop_repeatedly_cleared:
  "stoppable chan \<Longrightarrow> ds \<noteq> [] \<Longrightarrow> stop_repeatedly ds chan h = (ok, chan', h') \<Longrightarrow>
     ok \<and> \<not> inStarted (chan_private chan') \<and> \<not> outStarted (chan_private chan')"
proof (induction ds arbitrary: chan h ok chan' h')
  case Nil
  then show ?case by simp
next
  case (Cons d ds)
  obtain chan1 h1 where s1: "RpcInStopChannel chan d h = (chan1, h1)"
    by (cases "RpcInStopChannel chan d h")
  obtain ok2 where s2: "stop_repeatedly ds chan1 h1 = (ok2, chan', h')"
    and ok: "ok = (RpcInStopChannel_asserts chan \<and> ok2)"
    using Cons.prems(3) s1 by (auto simp: Let_def split: prod.splits)
  have p1: "chan_private chan1 = (chan_private chan)\<lparr>
        bd_in := bd_in (chan_private chan) \<and> \<not> d,
        bd_out := bd_out (chan_private chan) \<and> \<not> d,
        inStarted := inStarted (chan_private chan) \<and> \<not> bd_in (chan_private chan),
        outStarted := outStarted (chan_private chan) \<and> \<not> bd_out (chan_private chan)\<rparr>"
    using RpcInStopChannel_private[of chan d h] s1 by simp
  have a1: "appName chan1 = appName chan"
    using RpcInStopChannel_appName[of chan d h] s1 by simp
  have st1: "stoppable chan1"
    using Cons.prems(1) p1 a1 by (auto simp: stoppable_def)
  have off1: "\<not> inStarted (chan_private chan1) \<and> \<not> outStarted (chan_private chan1)"
    using Cons.prems(1) p1 by (auto simp: stoppable_def)
  have as: "RpcInStopChannel_asserts chan"
    using Cons.prems(1) by (rule stoppable_asserts)
  show ?case
  proof (cases ds)
    case Nil
    then show ?thesis using s2 ok as off1 by simp
  next
    case (Cons d' ds')
    then have "ds \<noteq> []" by simp
    from Cons.IH[OF st1 this s2] show ?thesis using ok as by simp
  qed
qed

lemma RpcInStart_chan:
  "RpcInStart chan h = (ret, chan1, h1) \<Longrightarrow>
     chan1 = chan\<lparr>chan_private := (chan_private chan)\<lparr>inStarted := True, outStarted := True\<rparr>\<rparr>"
  by (auto simp: RpcInStart_def Let_def split: prod.splits if_splits)

text \<open>
  Claim C9. The channel has one started flag for each direction, and stopping one
  direction leaves the flag of the other as it is. After a start attempt
  on a channel that has its \<open>in\<close> and \<open>out\<close> objects and meets the assertions of
  \<open>RpcInStart\<close>, whatever the outcome of \<open>RpcIn_start\<close> and \<open>RpcOut_start\<close> (so also when
  the inbound loop starts and the outbound channel does not), both flags are set; from
  that state any non-empty sequence of stop or shutdown calls finds the assertions of
  \<open>RpcInStopChannel\<close> true at every call and ends with both flags cleared.
\<close>

theorem start_then_stop_clears_flags:
  assumes "RpcInStart_asserts chan"
    and "bd_in (chan_private chan)" and "bd_out (chan_private chan)"
    and "RpcInStart chan h = (ret, chan1, h1)"
    and "ds \<noteq> []"
    and "stop_repeatedly ds chan1 h1 = (ok, chan2, h2)"
  shows "inStarted (chan_private chan1) \<and> outStarted (chan_private chan1) \<and>
         ok \<and> \<not> inStarted (chan_private chan2) \<and> \<not> outStarted (chan_private chan2) \<and>
         inStarted (fst (stop_out destroy bdoor h')) = inStarted bdoor \<and>
         outStarted (fst (stop_in destroy bdoor h')) = outStarted bdoor"
proof -
  have c1: "chan1 = chan\<lparr>chan_private :=
              (chan_private chan)\<lparr>inStarted := True, outStarted := True\<rparr>\<rparr>"
    using assms(4) by (rule RpcInStart_chan)
  have "stoppable chan1"
    using assms(1,2,3) c1 by (simp add: stoppable_def RpcInStart_asserts_def)
  from stop_repeatedly_cleared[OF this assms(5) assms(6)] c1
  have "inStarted (chan_private chan1) \<and> outStarted (chan_private chan1) \<and>
         ok \<and> \<not> inStarted (chan_private chan2) \<and> \<not> outStarted (chan_private chan2)"
    by simp
  moreover have "inStarted (fst (stop_out destroy bdoor h')) = inStarted bdoor"
    by (simp add: stop_out_def Let_def split: prod.splits)
  moreover have "outStarted (fst (stop_in destroy bdoor h')) = outStarted bdoor"
    by (simp add: stop_in_def Let_def split: prod.splits)
  ultimately show ?thesis by simp
qed

text \<open>The witness: the inbound loop starts, the outbound channel does not, and the channel
  is stopped twice and then shut down.\<close>

theorem start_then_stop_clears_flags_witness:
  "fst (RpcInStart chan_new host_partial) = False \<and>
   calls (snd (snd (RpcInStart chan_new host_partial)))
     = [Call_RpcIn_start, Call_RpcOut_start, Call_RpcIn_stop] \<and>
   (let (ret, chan1, h1) = RpcInStart chan_new host_partial;
        (ok, chan2, h2) = stop_repeatedly [False, False, True] chan1 h1
    in inStarted (chan_private chan1) \<and> outStarted (chan_private chan1) \<and>
       ok \<and> \<not> inStarted (chan_private chan2) \<and> \<not> outStarted (chan_private chan2))"
proof -
  obtain ret chan1 h1 where s: "RpcInStart chan_new host_partial = (ret, chan1, h1)"
    by (cases "RpcInStart chan_new host_partial")
  obtain ok chan2 h2 where t: "stop_repeatedly [False, False, True] chan1 h1 = (ok, chan2, h2)"
    by (cases "stop_repeatedly [False, False, True] chan1 h1")
  have a: "RpcInStart_asserts chan_new"
    by (simp add: RpcInStart_asserts_def chan_new_def)
  have b: "bd_in (chan_private chan_new)" and c: "bd_out (chan_private chan_new)"
    by (simp_all add: chan_new_def)
  have d: "[False, False, True] \<noteq> []" by simp
  have e: "fst (RpcInStart chan_new host_partial) = False"
    "calls (snd (snd (RpcInStart chan_new host_partial)))
       = [Call_RpcIn_start, Call_RpcOut_start, Call_RpcIn_stop]"
    by (simp_all add: RpcInStart_def RpcIn_start_def RpcOut_start_def log_call_def
        host_partial_def chan_new_def)
  from start_then_stop_clears_flags[OF a b c s d t, of True "chan_private chan_new" h1]
    e s t show ?thesis by simp
qed

subsection \<open>Sending\<close>

text \<open>
  Claim C3, as the code has it. When the first attempt of a send on a started channel
  fails with a non-NULL reply longer than nine bytes that begins with \<open>"RpcOut: "\<close>, the
  out channel is stopped once and one restart is attempted. If the restart succeeds the
  same data is sent once more and the caller gets the outcome of that second attempt,
  success included; if the restart fails nothing is sent again, \<open>outStarted\<close> is cleared
  and the caller gets the first failure. There is never a second retry.
\<close>

theorem RpcInSend_restarts_once:
  assumes started: "outStarted (chan_private chan)"
    and first: "out_sends h = r1 # rest"
    and failed: "\<not> or_ret r1"
    and reply: "or_reply r1 = Some reply"
    and len: "or_replyLen r1 > 9"
    and pre: "g_str_has_prefix reply ''RpcOut: ''"
    and res: "RpcInSend chan data h = (res, chan', h')"
  shows "calls h' = calls h @ [Call_RpcOut_send data, Call_RpcOut_stop, Call_RpcOut_start]
                      @ (if next_start h then [Call_RpcOut_send data] else []) \<and>
         outStarted (chan_private chan') = next_start h \<and>
         inStarted (chan_private chan') = inStarted (chan_private chan) \<and>
         res = Some (if next_start h then
                       (case rest of
                          [] \<Rightarrow> \<lparr>sn_ret = False, sn_result = None, sn_resultLen = 0\<rparr>
                        | r2 # rs \<Rightarrow> \<lparr>sn_ret = or_ret r2,
                              sn_result = map_option (take (or_replyLen r2)) (or_reply r2),
                              sn_resultLen = or_replyLen r2\<rparr>)
                     else \<lparr>sn_ret = False, sn_result = Some (take (or_replyLen r1) reply),
                           sn_resultLen = or_replyLen r1\<rparr>)"
proof -
  have f: "rpcout_failure r1"
    using failed reply len pre by (simp add: rpcout_failure_def sizeof_RpcOut_prefix_def)
  show ?thesis
    using started first f failed reply res
    by (auto simp: RpcInSend_def RpcOut_send_def RpcOut_start_def log_call_def
        next_start_def Let_def split: list.splits prod.splits if_splits)
qed

text \<open>The witness: the restart succeeds and so does the second send.\<close>

theorem RpcInSend_restarts_once_witness:
  "fst (RpcInSend chan_up ''ping'' host_restart)
     = Some \<lparr>sn_ret = True, sn_result = Some ''1 '', sn_resultLen = 2\<rparr> \<and>
   calls (snd (snd (RpcInSend chan_up ''ping'' host_restart)))
     = [Call_RpcOut_send ''ping'', Call_RpcOut_stop, Call_RpcOut_start,
        Call_RpcOut_send ''ping''] \<and>
   outStarted (chan_private (fst (snd (RpcInSend chan_up ''ping'' host_restart))))"
proof -
  obtain res chan' h' where s: "RpcInSend chan_up ''ping'' host_restart = (res, chan', h')"
    by (cases "RpcInSend chan_up ''ping'' host_restart")
  have a: "outStarted (chan_private chan_up)" by (simp add: chan_up_def)
  have b: "out_sends host_restart = reply_desync # [reply_ok]" by (simp add: host_restart_def)
  have c: "\<not> or_ret reply_desync" by (simp add: reply_desync_def)
  have d: "or_reply reply_desync = Some ''RpcOut: Unable to send the RPCI command''"
    by (simp add: reply_desync_def)
  have e: "or_replyLen reply_desync > 9" by (simp add: reply_desync_def)
  have f: "g_str_has_prefix ''RpcOut: Unable to send the RPCI command'' ''RpcOut: ''"
    by (simp add: g_str_has_prefix_def)
  have n: "next_start host_restart" by (simp add: next_start_def host_restart_def)
  from RpcInSend_restarts_once[OF a b c d e f s] n s show ?thesis
    by (simp add: host_restart_def reply_ok_def)
qed

text \<open>
  The claim as the spec words it fails twice. On \<open>host_no_restart\<close> the first attempt
  fails with the signature and the channel cannot be restarted: the data is sent once and
  never again. On \<open>host_short\<close> the failed reply \<open>"RpcOut: x"\<close> begins with the signature
  but is only nine bytes long: the channel is neither stopped nor restarted and nothing
  is sent again, although a restart and a second send would have succeeded.
\<close>

theorem RpcInSend_resend_counterexample:
  "\<not> or_ret reply_desync \<and>
   or_reply reply_desync = Some ''RpcOut: Unable to send the RPCI command'' \<and>
   g_str_has_prefix ''RpcOut: Unable to send the RPCI command'' ''RpcOut: '' \<and>
   calls (snd (snd (RpcInSend chan_up ''ping'' host_no_restart)))
     = [Call_RpcOut_send ''ping'', Call_RpcOut_stop, Call_RpcOut_start] \<and>
   fst (RpcInSend chan_up ''ping'' host_no_restart)
     = Some \<lparr>sn_ret = False, sn_result = Some ''RpcOut: Unable to send the RPCI command'',
             sn_resultLen = 39\<rparr> \<and>
   \<not> or_ret reply_short \<and> or_reply reply_short = Some ''RpcOut: x'' \<and>
   g_str_has_prefix ''RpcOut: x'' ''RpcOut: '' \<and>
   calls (snd (snd (RpcInSend chan_up ''ping'' host_short))) = [Call_RpcOut_send ''ping'']"
  by (simp add: RpcInSend_def RpcOut_send_def RpcOut_start_def log_call_def
      rpcout_failure_def g_str_has_prefix_def sizeof_RpcOut_prefix_def
      host_no_restart_def host_short_def chan_up_def reply_desync_def reply_short_def
      reply_ok_def)

section \<open>Theorems: the statistics update\<close>

subsection \<open>The negotiation ends\<close>

lemma settled_shift:
  "settled n (sent @ [v]) rs res \<Longrightarrow> settled (Suc n) sent (r # rs) res"
  by (cases res) (auto simp: settled_def split: sum.splits)

lemma settled_shift2:
  "settled 1 (sent @ [v]) rs res \<Longrightarrow> settled 2 sent (r # rs) res"
  using settled_shift[of 1 sent v rs res r] by (simp add: numeral_2_eq_2)

lemma settled_shift3:
  "settled 2 (sent @ [v]) rs res \<Longrightarrow> settled 3 sent (r # rs) res"
  using settled_shift[of 2 sent v rs res r] by (simp add: numeral_3_eq_3 numeral_2_eq_2)

lemma settled_mono: "settled n sent replies res \<Longrightarrow> n \<le> m \<Longrightarrow> settled m sent replies res"
proof (cases res)
  case None
  assume "settled n sent replies res" then show ?thesis using None by (simp add: settled_def)
next
  case (Some out)
  assume s: "settled n sent replies res" and le: "n \<le> m"
  show ?thesis
  proof (cases out)
    case (Inl f)
    from s Some Inl obtain r where "r \<in> set (take n replies)" "hr_reply r = None"
      by (auto simp: settled_def)
    moreover have "set (take n replies) \<subseteq> set (take m replies)"
      using le by (rule set_take_subset_set_take)
    ultimately show ?thesis using Some Inl by (auto simp: settled_def)
  next
    case (Inr ng)
    from s Some Inr le show ?thesis by (auto simp: settled_def)
  qed
qed

lemma negotiate_renegotiate:
  "hr_ok r \<Longrightarrow> hr_reply r \<noteq> None \<Longrightarrow> h_sessionId handle \<noteq> 0 \<Longrightarrow>
   h_sessionId handle \<noteq> hr_sessionId r \<Longrightarrow>
     negotiate ext handle hv sent (r # rs)
       = negotiate ext (handle\<lparr>h_sessionId := 0\<rparr>) VMGUESTLIB_DATA_VERSION (sent @ [hv]) rs"
  by (cases "hr_reply r") (simp_all add: Let_def)

lemma negotiate_step_down:
  "\<not> hr_ok r \<Longrightarrow> hr_reply r = Some msg \<Longrightarrow> msg \<noteq> ''Unknown command'' \<Longrightarrow>
     negotiate ext handle 3 sent (r # rs)
       = negotiate ext (handle\<lparr>h_sessionId := 0\<rparr>) 2 (sent @ [3]) rs"
  by (simp add: Let_def)

lemma negotiate_v2_fresh:
  "h_sessionId handle = 0 \<Longrightarrow> settled 1 sent (r # rs) (negotiate ext handle 2 sent (r # rs))"
  by (auto simp: settled_def Let_def)

lemma negotiate_v3_fresh:
  "h_sessionId handle = 0 \<Longrightarrow>
     settled 2 sent (r1 # r2 # rs) (negotiate ext handle 3 sent (r1 # r2 # rs))"
  by (auto simp: settled_def Let_def split: option.splits)

lemma negotiate_v3:
  "settled 3 sent (r1 # r2 # r3 # rs) (negotiate ext handle 3 sent (r1 # r2 # r3 # rs))"
proof (cases "h_sessionId handle = 0")
  case True
  from negotiate_v3_fresh[OF True, of sent r1 r2 "r3 # rs" ext] show ?thesis
    by (rule settled_mono) simp
next
  case sid: False
  show ?thesis
  proof (cases "hr_ok r1")
    case ok: True
    show ?thesis
    proof (cases "hr_reply r1 = None \<or> h_sessionId handle = hr_sessionId r1")
      case True
      then show ?thesis using ok sid by (auto simp: settled_def Let_def)
    next
      case False
      then have eq: "negotiate ext handle 3 sent (r1 # r2 # r3 # rs)
                   = negotiate ext (handle\<lparr>h_sessionId := 0\<rparr>) 3 (sent @ [3]) (r2 # r3 # rs)"
        using ok sid negotiate_renegotiate[of r1 handle ext 3 sent "r2 # r3 # rs"]
        by (simp add: VMGUESTLIB_DATA_VERSION_def)
      have "settled 2 (sent @ [3]) (r2 # r3 # rs)
              (negotiate ext (handle\<lparr>h_sessionId := 0\<rparr>) 3 (sent @ [3]) (r2 # r3 # rs))"
        by (rule negotiate_v3_fresh) simp
      then show ?thesis unfolding eq by (rule settled_shift3)
    qed
  next
    case fail: False
    show ?thesis
    proof (cases "hr_reply r1")
      case None
      then show ?thesis using fail by (auto simp: settled_def Let_def)
    next
      case (Some msg)
      show ?thesis
      proof (cases "msg = ''Unknown command''")
        case True
        then show ?thesis using fail Some by (auto simp: settled_def Let_def)
      next
        case False
        have eq: "negotiate ext handle 3 sent (r1 # r2 # r3 # rs)
                     = negotiate ext (handle\<lparr>h_sessionId := 0\<rparr>) 2 (sent @ [3]) (r2 # r3 # rs)"
          using fail Some False by (rule negotiate_step_down)
        have "settled 1 (sent @ [3]) (r2 # r3 # rs)
                (negotiate ext (handle\<lparr>h_sessionId := 0\<rparr>) 2 (sent @ [3]) (r2 # r3 # rs))"
          by (rule negotiate_v2_fresh) simp
        then have "settled 2 sent (r1 # r2 # r3 # rs)
                (negotiate ext (handle\<lparr>h_sessionId := 0\<rparr>) 2 (sent @ [3]) (r2 # r3 # rs))"
          by (rule settled_shift2)
        then show ?thesis unfolding eq by (rule settled_mono) simp
      qed
    qed
  qed
qed

lemma negotiate_v2:
  "settled 3 sent (r1 # r2 # r3 # rs) (negotiate ext handle 2 sent (r1 # r2 # r3 # rs))"
proof (cases "hr_ok r1 \<and> hr_reply r1 \<noteq> None \<and> h_sessionId handle \<noteq> 0
              \<and> h_sessionId handle \<noteq> hr_sessionId r1")
  case True
  then have eq: "negotiate ext handle 2 sent (r1 # r2 # r3 # rs)
               = negotiate ext (handle\<lparr>h_sessionId := 0\<rparr>) 3 (sent @ [2]) (r2 # r3 # rs)"
    using negotiate_renegotiate[of r1 handle ext 2 sent "r2 # r3 # rs"]
    by (simp add: VMGUESTLIB_DATA_VERSION_def)
  have "settled 2 (sent @ [2]) (r2 # r3 # rs)
          (negotiate ext (handle\<lparr>h_sessionId := 0\<rparr>) 3 (sent @ [2]) (r2 # r3 # rs))"
    by (rule negotiate_v3_fresh) simp
  then show ?thesis unfolding eq by (rule settled_shift3)
next
  case False
  then show ?thesis by (auto simp: settled_def Let_def)
qed

text \<open>The bound needs the handle's version to be one the library stores. A loop that
  starts from another version against a host that fails every request and names that
  same version again does not end: it uses up every script.\<close>

lemma negotiate_may_not_end:
  assumes "\<not> hr_ok r" and "hr_reply r = Some msg" and "msg \<noteq> ''Unknown command''"
    and "StrUtil_GetNextUintToken ext msg = Some v" and "v \<noteq> 2" and "v \<noteq> 3"
  shows "negotiate ext handle v sent (replicate n r) = None"
  using assms by (induction n arbitrary: sent) (simp_all add: Let_def)

lemma first_version_cases:
  "h_version handle = 0 \<or> h_version handle = 2 \<or> h_version handle = 3 \<Longrightarrow>
     first_version handle = 2 \<or> first_version handle = 3"
  by (auto simp: first_version_def VMGUESTLIB_DATA_VERSION_def)

lemma store_reply_failure:
  "ng_ret ng \<noteq> VMGUESTLIB_ERROR_SUCCESS \<Longrightarrow> store_reply ext ng = Inr (ng_ret ng, ng_handle ng)"
  by (simp add: store_reply_def Let_def)

lemma negotiate_keeps_version:
  "negotiate ext handle hv sent rs = Some (Inr ng) \<Longrightarrow>
     h_version (ng_handle ng) = h_version handle"
proof (induction rs arbitrary: handle hv sent)
  case Nil
  then show ?case by simp
next
  case (Cons r rs)
  show ?case
  proof (cases "hr_ok r")
    case True
    show ?thesis
    proof (cases "h_sessionId handle \<noteq> 0 \<and> hr_reply r \<noteq> None
                  \<and> h_sessionId handle \<noteq> hr_sessionId r")
      case True
      then have "negotiate ext (handle\<lparr>h_sessionId := 0\<rparr>) VMGUESTLIB_DATA_VERSION
                   (sent @ [hv]) rs = Some (Inr ng)"
        using Cons.prems \<open>hr_ok r\<close> negotiate_renegotiate[of r handle ext hv sent rs] by simp
      from Cons.IH[OF this] show ?thesis by simp
    next
      case False
      then show ?thesis using Cons.prems True by (auto simp: Let_def split: if_splits)
    qed
  next
    case fail: False
    show ?thesis
    proof (cases "hv = 2 \<or> hr_reply r = None \<or> hr_reply r = Some ''Unknown command''")
      case True
      then show ?thesis using Cons.prems fail
        by (auto simp: Let_def split: if_splits option.splits)
    next
      case False
      then obtain msg where m: "hr_reply r = Some msg" "msg \<noteq> ''Unknown command''" by auto
      show ?thesis
      proof (cases "hv = 3")
        case True
        then have "negotiate ext (handle\<lparr>h_sessionId := 0\<rparr>) 2 (sent @ [hv]) rs
                     = Some (Inr ng)"
          using Cons.prems fail m by (simp add: Let_def)
        from Cons.IH[OF this] show ?thesis by simp
      next
        case hv: False
        show ?thesis
        proof (cases "StrUtil_GetNextUintToken ext msg")
          case None
          then show ?thesis using Cons.prems fail m hv False by (auto simp: Let_def)
        next
          case (Some w)
          then have "negotiate ext handle w (sent @ [hv]) rs = Some (Inr ng)"
            using Cons.prems fail m hv False by (simp add: Let_def)
          from Cons.IH[OF this] show ?thesis by simp
        qed
      qed
    qed
  qed
qed

lemma store_reply_version:
  "store_reply ext ng = Inr (ret, handle') \<Longrightarrow>
     h_version handle' = h_version (ng_handle ng) \<or> h_version handle' = 2 \<or>
     h_version handle' = 3"
  by (auto simp: store_reply_def Let_def split: if_splits option.splits prod.splits)

text \<open>
  Claim C2. On a handle whose version is 0, 2 or 3 (the only values the library ever
  stores) the negotiation loop ends for every sequence of host replies: given at least
  three replies, \<open>VMGuestLibUpdateInfo\<close> returns after at most three requests and has
  consumed exactly one reply per request; the only other outcome is a read through a
  NULL reply. When the host fails every request, whatever versions its replies report,
  the result is the error \<open>VMGUESTLIB_ERROR_UNSUPPORTED_VERSION\<close>. The version left in
  the handle is again 0, 2 or 3.
\<close>

theorem VMGuestLibUpdateInfo_terminates:
  assumes v: "h_version handle = 0 \<or> h_version handle = 2 \<or> h_version handle = 3"
    and len: "3 \<le> length replies"
  shows "\<exists>out. VMGuestLibUpdateInfo ext handle replies = Some out \<and>
           (case out of
              Inl f \<Rightarrow> \<exists>r \<in> set (take 3 replies). hr_reply r = None
            | Inr u \<Rightarrow>
                1 \<le> length (up_sent u) \<and> length (up_sent u) \<le> 3 \<and>
                up_rest u = drop (length (up_sent u)) replies \<and>
                ((\<forall>r \<in> set replies. \<not> hr_ok r) \<longrightarrow>
                   up_ret u = VMGUESTLIB_ERROR_UNSUPPORTED_VERSION) \<and>
                (h_version (up_handle u) = 0 \<or> h_version (up_handle u) = 2 \<or>
                 h_version (up_handle u) = 3))"
proof -
  from len obtain r1 r2 r3 rs where rep: "replies = r1 # r2 # r3 # rs"
    by (cases replies; cases "tl replies"; cases "tl (tl replies)") auto
  let ?res = "negotiate ext handle (first_version handle) [] replies"
  have s: "settled 3 [] replies ?res"
    using first_version_cases[OF v] negotiate_v2 negotiate_v3 unfolding rep by metis
  show ?thesis
  proof (cases ?res)
    case None
    with s show ?thesis by (simp add: settled_def)
  next
    case (Some out)
    show ?thesis
    proof (cases out)
      case (Inl f)
      with s Some show ?thesis
        by (simp add: settled_def VMGuestLibUpdateInfo_def finish_update_def)
    next
      case (Inr ng)
      from s Some Inr obtain k where k: "1 \<le> k" "k \<le> 3" "length (ng_sent ng) = k"
        "ng_rest ng = drop k replies" "k \<le> length replies"
        "ng_reply ng = replies ! (k - 1)"
        "(\<forall>r \<in> set (take k replies). \<not> hr_ok r) \<longrightarrow>
           ng_ret ng = VMGUESTLIB_ERROR_UNSUPPORTED_VERSION"
        by (auto simp: settled_def)
      have mem: "ng_reply ng \<in> set (take 3 replies)"
      proof -
        have "k - 1 < length (take 3 replies)" using k(1,2,5) len by simp
        then have "take 3 replies ! (k - 1) \<in> set (take 3 replies)" by (rule nth_mem)
        moreover have "take 3 replies ! (k - 1) = replies ! (k - 1)"
          using k(1,2) by simp
        ultimately show ?thesis using k(6) by simp
      qed
      have allfail: "(\<forall>r \<in> set replies. \<not> hr_ok r) \<longrightarrow>
                       ng_ret ng = VMGUESTLIB_ERROR_UNSUPPORTED_VERSION"
        using k(7) by (meson in_set_takeD)
      show ?thesis
      proof (cases "store_reply ext ng")
        case (Inl f)
        have "hr_reply (ng_reply ng) = None"
          using Inl by (auto simp: store_reply_def Let_def split: if_splits option.splits prod.splits)
        with mem have "\<exists>r \<in> set (take 3 replies). hr_reply r = None" by blast
        then show ?thesis
          using Some \<open>out = Inr ng\<close> Inl
          by (simp add: VMGuestLibUpdateInfo_def finish_update_def)
      next
        case (Inr p)
        obtain ret handle' where p: "p = (ret, handle')" by (cases p)
        have "(\<forall>r \<in> set replies. \<not> hr_ok r) \<longrightarrow> ret = VMGUESTLIB_ERROR_UNSUPPORTED_VERSION"
          using allfail Inr p store_reply_failure[of ng ext] by auto
        moreover have "h_version (ng_handle ng) = h_version handle"
          using Some \<open>out = Inr ng\<close> by (auto intro: negotiate_keeps_version)
        then have "h_version handle' = 0 \<or> h_version handle' = 2 \<or> h_version handle' = 3"
          using store_reply_version[of ext ng ret handle'] Inr p v by auto
        ultimately show ?thesis
          using Some \<open>out = Inr ng\<close> Inr p k(1,2,3,4)
          by (simp add: VMGuestLibUpdateInfo_def finish_update_def)
      qed
    qed
  qed
qed

text \<open>The witness: a fresh handle and a host that fails every request.\<close>

theorem VMGuestLibUpdateInfo_terminates_witness:
  "(h_version VMGuestLib_OpenHandle = 0 \<or> h_version VMGuestLib_OpenHandle = 2
      \<or> h_version VMGuestLib_OpenHandle = 3) \<and>
   3 \<le> length [reply_unsupported, reply_unsupported, reply_unsupported] \<and>
   (\<exists>out. VMGuestLibUpdateInfo ext0 VMGuestLib_OpenHandle
              [reply_unsupported, reply_unsupported, reply_unsupported] = Some out) \<and>
   VMGuestLibUpdateInfo ext0 VMGuestLib_OpenHandle
       [reply_unsupported, reply_unsupported, reply_unsupported]
     = Some (Inr \<lparr>up_ret = VMGUESTLIB_ERROR_UNSUPPORTED_VERSION,
                   up_handle = VMGuestLib_OpenHandle, up_sent = [3, 2],
                   up_rest = [reply_unsupported]\<rparr>)"
proof -
  have a: "h_version VMGuestLib_OpenHandle = 0 \<or> h_version VMGuestLib_OpenHandle = 2
             \<or> h_version VMGuestLib_OpenHandle = 3"
    by (simp add: VMGuestLib_OpenHandle_def)
  have b: "3 \<le> length [reply_unsupported, reply_unsupported, reply_unsupported]" by simp
  have c: "VMGuestLibUpdateInfo ext0 VMGuestLib_OpenHandle
             [reply_unsupported, reply_unsupported, reply_unsupported]
           = Some (Inr \<lparr>up_ret = VMGUESTLIB_ERROR_UNSUPPORTED_VERSION,
                         up_handle = VMGuestLib_OpenHandle, up_sent = [3, 2],
                         up_rest = [reply_unsupported]\<rparr>)"
    by (simp add: VMGuestLibUpdateInfo_def finish_update_def first_version_def
        VMGUESTLIB_DATA_VERSION_def VMGuestLib_OpenHandle_def reply_unsupported_def
        store_reply_def Let_def)
  from VMGuestLibUpdateInfo_terminates[OF a b, of ext0]
  have d: "\<exists>out. VMGuestLibUpdateInfo ext0 VMGuestLib_OpenHandle
                  [reply_unsupported, reply_unsupported, reply_unsupported] = Some out"
    by blast
  show ?thesis using a b c d by (simp only: simp_thms)
qed

subsection \<open>A host that knows version 2 only\<close>

text \<open>
  Claim C5. The client requests at version 3 (its handle is fresh or was last updated
  at version 3); the host fails the request with a reply other than
  \<open>"Unknown command"\<close>, and answers the request at version 2 with a reply of version 2
  and of the size of \<open>VMGuestLibDataV2\<close>. Then the update sends exactly the two requests,
  at versions 3 and 2, returns success and stores version 2, the reply's session id and
  the reply's data in the handle; and every accessor of an integral statistic on that
  handle reads the field of the version 2 struct (or reports that there is no information
  when the host's session id is 0), never the version 3 array.
\<close>

theorem v2_host_fallback:
  assumes v: "h_version handle = 0 \<or> h_version handle = 3"
    and fail: "\<not> hr_ok r1" and msg: "hr_reply r1 = Some msg" "msg \<noteq> ''Unknown command''"
    and ok: "hr_ok r2" "hr_reply r2 \<noteq> None" "hr_version r2 = 2"
    and sz: "hr_replyLen r2 = sizeof_VMGuestLibDataV2 ext" "4 \<le> sizeof_VMGuestLibDataV2 ext"
  shows "\<exists>u. VMGuestLibUpdateInfo ext handle (r1 # r2 # rs) = Some (Inr u) \<and>
           up_ret u = VMGUESTLIB_ERROR_SUCCESS \<and> up_sent u = [3, 2] \<and> up_rest u = rs \<and>
           h_version (up_handle u) = 2 \<and>
           h_sessionId (up_handle u) = hr_sessionId r2 \<and>
           h_data (up_handle u) = DataV2 (hr_v2 r2) \<and>
           (\<forall>statId. VMGUESTLIB_GETFN_BODY (Some (up_handle u)) True statId =
              (if hr_sessionId r2 = 0 then Inr (VMGUESTLIB_ERROR_NO_INFO, None)
               else if sv_valid (hr_v2 r2 statId)
                    then Inr (VMGUESTLIB_ERROR_SUCCESS, Some (sv_value (hr_v2 r2 statId)))
                    else Inr (VMGUESTLIB_ERROR_NOT_AVAILABLE, None)))"
proof -
  have fv: "first_version handle = 3"
    using v by (auto simp: first_version_def VMGUESTLIB_DATA_VERSION_def)
  have n1: "negotiate ext handle 3 [] (r1 # r2 # rs)
              = negotiate ext (handle\<lparr>h_sessionId := 0\<rparr>) 2 ([] @ [3]) (r2 # rs)"
    using fail msg by (rule negotiate_step_down)
  have n2: "negotiate ext (handle\<lparr>h_sessionId := 0\<rparr>) 2 ([] @ [3]) (r2 # rs)
              = Some (Inr \<lparr>ng_ret = VMGUESTLIB_ERROR_SUCCESS, ng_hostVersion = 2,
                            ng_handle = handle\<lparr>h_sessionId := 0\<rparr>, ng_reply = r2,
                            ng_sent = [3, 2], ng_rest = rs\<rparr>)"
    using ok by (simp add: Let_def)
  let ?h = "handle\<lparr>h_version := 2, h_sessionId := hr_sessionId r2,
                   h_dataSize := (if h_dataSize handle < sizeof_VMGuestLibDataV2 ext
                                  then sizeof_VMGuestLibDataV2 ext else h_dataSize handle),
                   h_data := DataV2 (hr_v2 r2)\<rparr>"
  have st: "store_reply ext \<lparr>ng_ret = VMGUESTLIB_ERROR_SUCCESS, ng_hostVersion = 2,
                            ng_handle = handle\<lparr>h_sessionId := 0\<rparr>, ng_reply = r2,
                            ng_sent = [3, 2], ng_rest = rs\<rparr>
              = Inr (VMGUESTLIB_ERROR_SUCCESS, ?h)"
    using ok sz by (simp add: store_reply_def Let_def)
  have up: "VMGuestLibUpdateInfo ext handle (r1 # r2 # rs)
              = Some (Inr \<lparr>up_ret = VMGUESTLIB_ERROR_SUCCESS, up_handle = ?h,
                            up_sent = [3, 2], up_rest = rs\<rparr>)"
    by (simp only: VMGuestLibUpdateInfo_def fv n1 n2 finish_update_def st
        option.case sum.case prod.case negotiated.simps)
  have acc: "\<forall>statId. VMGUESTLIB_GETFN_BODY (Some ?h) True statId =
              (if hr_sessionId r2 = 0 then Inr (VMGUESTLIB_ERROR_NO_INFO, None)
               else if sv_valid (hr_v2 r2 statId)
                    then Inr (VMGUESTLIB_ERROR_SUCCESS, Some (sv_value (hr_v2 r2 statId)))
                    else Inr (VMGUESTLIB_ERROR_NOT_AVAILABLE, None))"
    by (simp add: VMGUESTLIB_GETFN_BODY_def VMGuestLibCheckArgs_def VMGUESTLIB_GETSTAT_V2_def
        Let_def)
  show ?thesis unfolding up using acc by simp
qed

text \<open>The witness: a fresh handle, the failure for version 3, the statistics of version
  2; the first statistic is valid and is read, the second is not.\<close>

theorem v2_host_fallback_witness:
  "(h_version VMGuestLib_OpenHandle = 0 \<or> h_version VMGuestLib_OpenHandle = 3) \<and>
   \<not> hr_ok reply_unsupported \<and> hr_reply reply_unsupported = Some ''Unsupported version'' \<and>
   ''Unsupported version'' \<noteq> ''Unknown command'' \<and>
   hr_ok reply_v2 \<and> hr_reply reply_v2 \<noteq> None \<and> hr_version reply_v2 = 2 \<and>
   hr_replyLen reply_v2 = sizeof_VMGuestLibDataV2 ext0 \<and> 4 \<le> sizeof_VMGuestLibDataV2 ext0 \<and>
   (\<exists>u. VMGuestLibUpdateInfo ext0 VMGuestLib_OpenHandle [reply_unsupported, reply_v2]
           = Some (Inr u) \<and>
        up_ret u = VMGUESTLIB_ERROR_SUCCESS \<and> up_sent u = [3, 2] \<and>
        h_version (up_handle u) = 2 \<and> h_sessionId (up_handle u) = 4660 \<and>
        VMGUESTLIB_GETFN_BODY (Some (up_handle u)) True 1
          = Inr (VMGUESTLIB_ERROR_SUCCESS, Some 2000) \<and>
        VMGUESTLIB_GETFN_BODY (Some (up_handle u)) True 2
          = Inr (VMGUESTLIB_ERROR_NOT_AVAILABLE, None))"
proof -
  have a: "h_version VMGuestLib_OpenHandle = 0 \<or> h_version VMGuestLib_OpenHandle = 3"
    by (simp add: VMGuestLib_OpenHandle_def)
  have b: "\<not> hr_ok reply_unsupported"
    and c: "hr_reply reply_unsupported = Some ''Unsupported version''"
    by (simp_all add: reply_unsupported_def)
  have d: "''Unsupported version'' \<noteq> ''Unknown command''" by simp
  have e: "hr_ok reply_v2" and f: "hr_reply reply_v2 \<noteq> None" and g: "hr_version reply_v2 = 2"
    and h: "hr_replyLen reply_v2 = sizeof_VMGuestLibDataV2 ext0"
    and i: "4 \<le> sizeof_VMGuestLibDataV2 ext0"
    and j: "hr_sessionId reply_v2 = 4660"
    and k: "sv_valid (hr_v2 reply_v2 1)" "sv_value (hr_v2 reply_v2 1) = 2000"
      "\<not> sv_valid (hr_v2 reply_v2 2)"
    by (simp_all add: reply_v2_def ext0_def)
  from v2_host_fallback[OF a b c d e f g h i, of "[]"] a b c d e f g h i j k
  show ?thesis by auto
qed

subsection \<open>A change of session\<close>

lemma negotiate_invalidated:
  "negotiate ext handle hv sent rs = Some (Inr ng) \<Longrightarrow> h_sessionId handle = 0 \<Longrightarrow>
     h_sessionId (ng_handle ng) = 0 \<and> ng_reply ng \<in> set rs \<and>
     (\<exists>more. ng_sent ng = sent @ hv # more)"
proof (induction rs arbitrary: handle hv sent)
  case Nil
  then show ?case by simp
next
  case (Cons r rs)
  show ?case
  proof (cases "\<not> hr_ok r \<and> hv \<noteq> 2 \<and> hr_reply r \<noteq> None
                \<and> hr_reply r \<noteq> Some ''Unknown command''")
    case False
    then show ?thesis using Cons.prems
      by (auto simp: Let_def split: if_splits option.splits)
  next
    case True
    then obtain msg where m: "hr_reply r = Some msg" "msg \<noteq> ''Unknown command''" by auto
    show ?thesis
    proof (cases "hv = 3")
      case True
      then have "negotiate ext (handle\<lparr>h_sessionId := 0\<rparr>) 2 (sent @ [hv]) rs = Some (Inr ng)"
        using Cons.prems(1) \<open>\<not> hr_ok r \<and> _\<close> m by (simp add: Let_def)
      from Cons.IH[OF this] show ?thesis by auto
    next
      case False
      show ?thesis
      proof (cases "StrUtil_GetNextUintToken ext msg")
        case None
        then show ?thesis using Cons.prems \<open>\<not> hr_ok r \<and> _\<close> m False
          by (auto simp: Let_def)
      next
        case (Some w)
        then have "negotiate ext handle w (sent @ [hv]) rs = Some (Inr ng)"
          using Cons.prems(1) \<open>\<not> hr_ok r \<and> _\<close> m False by (simp add: Let_def)
        from Cons.IH[OF this Cons.prems(2)] show ?thesis by auto
      qed
    qed
  qed
qed

lemma store_reply_sessionId:
  "store_reply ext ng = Inr (ret, handle') \<Longrightarrow>
     h_sessionId handle' = h_sessionId (ng_handle ng) \<or> h_sessionId handle' = 0 \<or>
     h_sessionId handle' = hr_sessionId (ng_reply ng)"
  by (auto simp: store_reply_def Let_def split: if_splits option.splits prod.splits)

text \<open>
  Claim C6. When a request of the update succeeds and the reply carries a session id
  different from the non-zero session id of the handle, the reply is not accepted: the
  session id of the handle is reset to 0 and the loop goes on from the client's highest
  version, \<open>VMGUESTLIB_DATA_VERSION\<close>, with the replies that follow. So the update as a
  whole is the negotiation from the top on the invalidated handle; its second request is
  at the highest version; and the session id it leaves in the handle is 0 or that of a
  later reply.
\<close>

theorem session_change_renegotiates:
  assumes ok: "hr_ok r" and nn: "hr_reply r \<noteq> None"
    and sid: "h_sessionId handle \<noteq> 0" and diff: "hr_sessionId r \<noteq> h_sessionId handle"
  shows "VMGuestLibUpdateInfo ext handle (r # rs)
           = finish_update ext
               (negotiate ext (handle\<lparr>h_sessionId := 0\<rparr>) VMGUESTLIB_DATA_VERSION
                  [first_version handle] rs) \<and>
         (\<forall>u. VMGuestLibUpdateInfo ext handle (r # rs) = Some (Inr u) \<longrightarrow>
            (\<exists>more. up_sent u = first_version handle # VMGUESTLIB_DATA_VERSION # more) \<and>
            (h_sessionId (up_handle u) = 0 \<or>
             (\<exists>r' \<in> set rs. h_sessionId (up_handle u) = hr_sessionId r')))"
proof -
  have eq: "negotiate ext handle (first_version handle) [] (r # rs)
              = negotiate ext (handle\<lparr>h_sessionId := 0\<rparr>) VMGUESTLIB_DATA_VERSION
                  ([] @ [first_version handle]) rs"
    using ok nn sid diff by (intro negotiate_renegotiate) auto
  have up: "VMGuestLibUpdateInfo ext handle (r # rs)
           = finish_update ext
               (negotiate ext (handle\<lparr>h_sessionId := 0\<rparr>) VMGUESTLIB_DATA_VERSION
                  [first_version handle] rs)"
    by (simp only: VMGuestLibUpdateInfo_def eq append_Nil)
  have "(\<exists>more. up_sent u = first_version handle # VMGUESTLIB_DATA_VERSION # more) \<and>
        (h_sessionId (up_handle u) = 0 \<or>
         (\<exists>r' \<in> set rs. h_sessionId (up_handle u) = hr_sessionId r'))"
    if u: "VMGuestLibUpdateInfo ext handle (r # rs) = Some (Inr u)" for u
  proof -
    from u up obtain ng ret handle' where
      ng: "negotiate ext (handle\<lparr>h_sessionId := 0\<rparr>) VMGUESTLIB_DATA_VERSION
             [first_version handle] rs = Some (Inr ng)"
      and st: "store_reply ext ng = Inr (ret, handle')"
      and ud: "u = \<lparr>up_ret = ret, up_handle = handle', up_sent = ng_sent ng,
                    up_rest = ng_rest ng\<rparr>"
      by (auto simp: finish_update_def split: option.splits sum.splits prod.splits)
    have inv: "h_sessionId (ng_handle ng) = 0 \<and> ng_reply ng \<in> set rs \<and>
               (\<exists>more. ng_sent ng = [first_version handle] @ VMGUESTLIB_DATA_VERSION # more)"
      by (rule negotiate_invalidated[OF ng]) simp
    from store_reply_sessionId[OF st] inv ud show ?thesis by auto
  qed
  with up show ?thesis by blast
qed

text \<open>The witness: a handle of an earlier session at version 2; the host answers the
  request at version 2 under a new session id, then the request at version 3.\<close>

theorem session_change_renegotiates_witness:
  "hr_ok reply_v2 \<and> hr_reply reply_v2 \<noteq> None \<and> h_sessionId handle_old \<noteq> 0 \<and>
   hr_sessionId reply_v2 \<noteq> h_sessionId handle_old \<and>
   VMGuestLibUpdateInfo ext0 handle_old [reply_v2, reply_v3]
     = finish_update ext0
         (negotiate ext0 (handle_old\<lparr>h_sessionId := 0\<rparr>) VMGUESTLIB_DATA_VERSION
            [first_version handle_old] [reply_v3]) \<and>
   (\<exists>u. VMGuestLibUpdateInfo ext0 handle_old [reply_v2, reply_v3] = Some (Inr u) \<and>
        up_ret u = VMGUESTLIB_ERROR_SUCCESS \<and> up_sent u = [2, 3] \<and>
        h_version (up_handle u) = 3 \<and> h_sessionId (up_handle u) = 4660 \<and>
        h_data (up_handle u)
          = StatisticsV3 1 [\<lparr>v3_d = 1, v3_valid = True, v3_value = 2000\<rparr>])"
proof -
  have a: "hr_ok reply_v2" and b: "hr_reply reply_v2 \<noteq> None"
    and c: "h_sessionId handle_old \<noteq> 0"
    and d: "hr_sessionId reply_v2 \<noteq> h_sessionId handle_old"
    by (simp_all add: reply_v2_def handle_old_def)
  have e: "finish_update ext0
         (negotiate ext0 (handle_old\<lparr>h_sessionId := 0\<rparr>) VMGUESTLIB_DATA_VERSION
            [first_version handle_old] [reply_v3])
      = Some (Inr \<lparr>up_ret = VMGUESTLIB_ERROR_SUCCESS,
                    up_handle = \<lparr>h_version = 3, h_sessionId = 4660, h_dataSize = 600,
                      h_data = StatisticsV3 1 [\<lparr>v3_d = 1, v3_valid = True, v3_value = 2000\<rparr>]\<rparr>,
                    up_sent = [2, 3], up_rest = []\<rparr>)"
    by (simp add: finish_update_def first_version_def VMGUESTLIB_DATA_VERSION_def
        handle_old_def reply_v3_def store_reply_def ext0_def Let_def)
  from session_change_renegotiates[OF a b c d, of ext0 "[reply_v3]"] a b c d e
  show ?thesis by simp
qed

section \<open>Theorems: the HGFS operations\<close>

subsection \<open>The life of a request buffer\<close>

lemma accounted_simps:
  "request_accounted []"
  "request_accounted [Ev_AllocateFailed]"
  "request_accounted [Ev_Allocate, Ev_Release]"
  "request_accounted [Ev_Allocate, Ev_Submit req ret] = (ret \<noteq> 0)"
  "request_accounted [Ev_Allocate, Ev_Submit req ret, Ev_Release] = (ret = 0)"
  by (auto simp: request_accounted_def allocations_def releases_def disposals_def)

lemma HgfsRenameInt_accounted: "request_accounted (snd (HgfsRenameInt abi x))"
  by (simp add: HgfsRenameInt_def Let_def accounted_simps)

lemma HgfsDelete_accounted: "request_accounted (snd (HgfsDelete x))"
  by (simp add: HgfsDelete_def Let_def accounted_simps)

lemma HgfsFileOpen_accounted: "request_accounted (snd (HgfsFileOpen x))"
  by (simp add: HgfsFileOpen_def Let_def accounted_simps)

lemma HgfsDirOpen_accounted: "request_accounted (snd (HgfsDirOpen x))"
  by (simp add: HgfsDirOpen_def Let_def accounted_simps)

lemma HgfsDoRead_accounted:
  "request_accounted (snd (snd (HgfsDoRead x handle offset sz uiop)))"
  by (simp add: HgfsDoRead_def Let_def accounted_simps split: prod.splits)

lemma HgfsDoWrite_accounted:
  "request_accounted (snd (snd (HgfsDoWrite abi x handle io_append offset sz uiop)))"
  by (simp add: HgfsDoWrite_def Let_def accounted_simps split: prod.splits)

lemma HgfsGetNextDirEntry_accounted:
  "request_accounted (er_trace (HgfsGetNextDirEntry abi x handle offset nameSize done))"
  by (simp add: HgfsGetNextDirEntry_def Let_def accounted_simps)

text \<open>
  Claim C4. In each of the marshaling operations (rename, delete, read, write, the two
  opens and the directory entry), whatever the environment does, the trace of the
  request buffer has one of five shapes: no buffer was asked for; the pool had none;
  the buffer was released by the caller before any submit; the submit failed, which
  disposes of the buffer, and the caller did not release it; or the submit succeeded and
  the caller released the buffer afterwards. So a buffer that was handed out is given
  back exactly once on every path.
\<close>

theorem request_released_exactly_once:
  "request_accounted (snd (HgfsRenameInt abi rn)) \<and>
   request_accounted (snd (HgfsDelete dl)) \<and>
   request_accounted (snd (snd (HgfsDoRead rd handle offset sz uiop))) \<and>
   request_accounted (snd (snd (HgfsDoWrite abi wr handle io_append offset sz uiop))) \<and>
   request_accounted (snd (HgfsFileOpen fo)) \<and>
   request_accounted (snd (HgfsDirOpen dop)) \<and>
   request_accounted (er_trace (HgfsGetNextDirEntry abi de search offset32 nameSize done))"
  by (intro conjI HgfsRenameInt_accounted HgfsDelete_accounted HgfsDoRead_accounted
      HgfsDoWrite_accounted HgfsFileOpen_accounted HgfsDirOpen_accounted
      HgfsGetNextDirEntry_accounted)

subsection \<open>A count larger than the chunk\<close>

lemma sint_small:
  assumes "unat (a :: 32 word) \<le> 4096"
  shows "sint a = int (unat a)"
proof -
  have b: "uint a \<le> 4096" using assms unfolding uint_nat by linarith
  have p: "(4096::int) < 2 ^ 31" by simp
  have "sint a = signed_take_bit (LENGTH(32) - Suc 0) (uint a)" by (rule sint_uint)
  then have "sint a = signed_take_bit 31 (uint a)" by simp
  also have "\<dots> = uint a"
  proof (rule signed_take_bit_int_eq_self)
    have "(0::int) \<le> uint a" by simp
    then show "- (2 ^ 31) \<le> uint a" using p by linarith
    show "uint a < 2 ^ 31" using b p by linarith
  qed
  finally show ?thesis by simp
qed

lemma unat_chunk_size: "unat (chunk_size uiop) = min (uio_resid uiop) HGFS_IO_MAX"
  by (auto simp: chunk_size_def HGFS_IO_MAX_def unat_of_nat min_def)

text \<open>The READ path checks the count: a reply whose \<open>actualSize\<close> exceeds the size asked for
  makes \<open>HgfsDoRead\<close> return \<open>-EPROTO\<close> with nothing copied and the buffer released, and
  the loop of \<open>HgfsReadInt\<close> returns \<open>EPROTO\<close>.\<close>

lemma HgfsDoRead_oversized:
  "x_alloc x \<Longrightarrow> x_submit x = 0 \<Longrightarrow> x_status x = 0 \<Longrightarrow> sz < re_actualSize x \<Longrightarrow>
     HgfsDoRead x handle offset sz uiop
       = (- EPROTO, uiop, [Ev_Allocate, Ev_Submit (Req_ReadV3 handle offset sz) 0, Ev_Release])"
proof -
  assume a: "x_alloc x" "x_submit x = 0" "x_status x = 0" and lt: "sz < re_actualSize x"
  from lt have "\<not> re_actualSize x \<le> sz" by simp
  with a show ?thesis by (simp add: HgfsDoRead_def Let_def)
qed

lemma HgfsReadInt_loop_oversized:
  assumes "x_alloc (env offset (chunk_size uiop))" "x_submit (env offset (chunk_size uiop)) = 0"
    "x_status (env offset (chunk_size uiop)) = 0"
    "chunk_size uiop < re_actualSize (env offset (chunk_size uiop))"
  shows "HgfsReadInt_loop env handle offset uiop t
           = (EPROTO, uiop, t @ [Ev_Allocate,
                Ev_Submit (Req_ReadV3 handle offset (chunk_size uiop)) 0, Ev_Release])"
  using HgfsDoRead_oversized[OF assms, where handle = handle and uiop = uiop]
  by (subst HgfsReadInt_loop.simps) (simp add: Let_def EPROTO_def)

text \<open>No READ copies more than was asked for.\<close>

lemma HgfsDoRead_copies_at_most:
  "length (uio_data (fst (snd (HgfsDoRead x handle offset sz uiop))))
     \<le> length (uio_data uiop) + unat sz"
  by (auto simp: HgfsDoRead_def Let_def uiomove_to_user_def word_le_nat_alt
      split: prod.splits if_splits)

text \<open>
  Claim C1, at the input where the code departs from it. A write of 4097 bytes at offset
  0 goes out in two chunks. The server answers the first chunk, of 4096 bytes, with a
  count of 5000. \<open>HgfsDoWrite\<close> returns that count, not \<open>-EPROTO\<close>; \<open>HgfsWriteInt\<close> adds it
  to the offset, sends the last byte at offset 5000 instead of 4096 and returns success.
\<close>

theorem HgfsWriteInt_accepts_oversized_count:
  "unat (chunk_size uio_4097) = 4096 \<and>
   unat (we_actualSize (writer_5000 0 (chunk_size uio_4097))) = 5000 \<and>
   HgfsDoWrite abi0 (writer_5000 0 4096) 1 False 0 4096 uio_4097
     = (5000, \<lparr>uio_offset = 4096, uio_resid = 1, uio_data = [0]\<rparr>,
        [Ev_Allocate, Ev_Submit (Req_WriteV3 1 False 0 4096 (replicate 4096 0)) 0,
         Ev_Release]) \<and>
   HgfsWriteInt abi0 writer_5000 (Some 1) False uio_4097
     = (0, \<lparr>uio_offset = 4097, uio_resid = 0, uio_data = []\<rparr>,
        [Ev_Allocate, Ev_Submit (Req_WriteV3 1 False 0 4096 (replicate 4096 0)) 0,
         Ev_Release,
         Ev_Allocate, Ev_Submit (Req_WriteV3 1 False 5000 1 [0]) 0, Ev_Release])"
proof (intro conjI)
  show "unat (chunk_size uio_4097) = 4096"
    by (simp add: unat_chunk_size uio_4097_def HGFS_IO_MAX_def)
  show "unat (we_actualSize (writer_5000 0 (chunk_size uio_4097))) = 5000"
    by (simp add: writer_5000_def)
  show "HgfsDoWrite abi0 (writer_5000 0 4096) 1 False 0 4096 uio_4097
     = (5000, \<lparr>uio_offset = 4096, uio_resid = 1, uio_data = [0]\<rparr>,
        [Ev_Allocate, Ev_Submit (Req_WriteV3 1 False 0 4096 (replicate 4096 0)) 0,
         Ev_Release])"
    by (simp add: HgfsDoWrite_def writer_5000_def abi0_def uio_4097_def
        uiomove_from_user_def Let_def)
  show "HgfsWriteInt abi0 writer_5000 (Some 1) False uio_4097
     = (0, \<lparr>uio_offset = 4097, uio_resid = 0, uio_data = []\<rparr>,
        [Ev_Allocate, Ev_Submit (Req_WriteV3 1 False 0 4096 (replicate 4096 0)) 0,
         Ev_Release,
         Ev_Allocate, Ev_Submit (Req_WriteV3 1 False 5000 1 [0]) 0, Ev_Release])"
    by (simp add: HgfsWriteInt_def uio_4097_def HgfsWriteInt_loop.simps chunk_size_def
        HGFS_IO_MAX_def HgfsDoWrite_def writer_5000_def abi0_def uiomove_from_user_def
        Let_def)
qed

subsection \<open>The chunked read\<close>

lemma read_sizes_append: "read_sizes (t @ t') = read_sizes t @ read_sizes t'"
  by (induction t rule: read_sizes.induct) simp_all

lemma HgfsDoRead_sizes:
  "set (read_sizes (snd (snd (HgfsDoRead x handle offset sz uiop)))) \<subseteq> {unat sz}"
  by (simp add: HgfsDoRead_def Let_def split: prod.splits)

text \<open>Whatever the server does, no request of the read loop asks for more than
  \<open>HGFS_IO_MAX\<close> bytes.\<close>

lemma HgfsReadInt_loop_sizes:
  "\<forall>n \<in> set (read_sizes t). n \<le> HGFS_IO_MAX \<Longrightarrow>
     \<forall>n \<in> set (read_sizes (snd (snd (HgfsReadInt_loop env handle offset uiop t)))).
        n \<le> HGFS_IO_MAX"
proof (induction env handle offset uiop t rule: HgfsReadInt_loop.induct)
  case (1 env handle offset uiop t)
  let ?sz = "chunk_size uiop"
  obtain ret uiop' t' where d: "HgfsDoRead (env offset ?sz) handle offset ?sz uiop = (ret, uiop', t')"
    by (cases "HgfsDoRead (env offset ?sz) handle offset ?sz uiop")
  have "set (read_sizes t') \<subseteq> {unat ?sz}"
    using HgfsDoRead_sizes[of "env offset ?sz" handle offset ?sz uiop] d by simp
  moreover have "unat ?sz \<le> HGFS_IO_MAX" by (simp add: unat_chunk_size)
  ultimately have t': "\<forall>n \<in> set (read_sizes (t @ t')). n \<le> HGFS_IO_MAX"
    using 1(2) by (auto simp: read_sizes_append)
  show ?case
  proof (cases "ret = 0 \<or> ret < 0 \<or> uio_resid uiop' = 0")
    case True
    then show ?thesis using d t'
      by (subst HgfsReadInt_loop.simps) (auto simp: Let_def)
  next
    case False
    then have "\<forall>n \<in> set (read_sizes (snd (snd (HgfsReadInt_loop env handle
                  (offset + of_int ret) uiop' (t @ t'))))). n \<le> HGFS_IO_MAX"
      using d t' by (intro 1(1)[OF refl _ refl refl]) auto
    then show ?thesis using False d
      by (subst HgfsReadInt_loop.simps) (simp add: Let_def)
  qed
qed

lemma unat_of_nat_small: "n \<le> 4096 \<Longrightarrow> unat (of_nat n :: 32 word) = n"
  by (simp add: unat_of_nat)

lemma map_nth_take_drop:
  "off + n \<le> length xs \<Longrightarrow> map (\<lambda>i. xs ! (off + i)) [0..<n] = take n (drop off xs)"
  by (auto simp: list_eq_iff_nth_eq)

lemma served_le: "served fl short offset sz \<le> min (unat sz) (length fl - unat offset)"
  by (auto simp: served_def Let_def)

lemma served_0:
  "served fl short offset sz = 0 \<longleftrightarrow> min (unat sz) (length fl - unat offset) = 0"
  by (auto simp: served_def Let_def)

text \<open>One READ against the file server: it delivers the bytes the server chose, taken
  from the file at the offset asked for.\<close>

lemma HgfsDoRead_file_server:
  assumes sz: "unat sz \<le> 4096" and fit: "unat sz \<le> uio_resid uiop"
  shows "HgfsDoRead (file_server fl short offset sz) handle offset sz uiop =
           (int (served fl short offset sz),
            (if served fl short offset sz = 0 then uiop
             else uiop\<lparr>uio_offset := uio_offset uiop + int (served fl short offset sz),
                       uio_resid := uio_resid uiop - served fl short offset sz,
                       uio_data := uio_data uiop
                          @ take (served fl short offset sz) (drop (unat offset) fl)\<rparr>),
            [Ev_Allocate, Ev_Submit (Req_ReadV3 handle offset sz) 0, Ev_Release])"
proof -
  let ?n = "served fl short offset sz"
  have le: "?n \<le> unat sz" and le2: "?n \<le> length fl - unat offset"
    using served_le[of fl short offset sz] by auto
  have n4: "?n \<le> 4096" using le sz by linarith
  have un: "unat (of_nat ?n :: 32 word) = ?n" using n4 by (rule unat_of_nat_small)
  have a: "re_actualSize (file_server fl short offset sz) = of_nat ?n"
    by (simp add: file_server_def)
  have lew: "(of_nat ?n :: 32 word) \<le> sz" using le un by (simp add: word_le_nat_alt)
  have z: "(of_nat ?n :: 32 word) = 0 \<longleftrightarrow> ?n = 0"
    using un by (metis unat_eq_0)
  have si: "sint (of_nat ?n :: 32 word) = int ?n"
    using sint_small[of "of_nat ?n"] un n4 by simp
  have mp: "map (\<lambda>i. fl ! (unat offset + i)) [0..<?n] = take ?n (drop (unat offset) fl)"
  proof (cases "?n = 0")
    case True then show ?thesis by simp
  next
    case False
    then have "unat offset + ?n \<le> length fl" using le2 by linarith
    then show ?thesis by (rule map_nth_take_drop)
  qed
  have mn: "min ?n (uio_resid uiop) = ?n" using le fit by linarith
  show ?thesis
    using lew z si mp mn un
    by (simp add: HgfsDoRead_def a uiomove_to_user_def Let_def file_server_def)
qed

lemma unat_advance:
  "unat (off :: 64 word) + n < 2 ^ 64 \<Longrightarrow> unat (off + of_int (int n)) = unat off + n"
  by (simp add: unat_word_ariths unat_of_nat)

text \<open>The loop against the file server, from any state: it returns success and has
  appended the range of the file that starts at the loop's offset and is as long as the
  residual count.\<close>

lemma HgfsReadInt_loop_file_server:
  "unat offset + uio_resid uiop < 2 ^ 64 \<Longrightarrow>
   fst (HgfsReadInt_loop (file_server fl short) handle offset uiop t) = 0 \<and>
   uio_data (fst (snd (HgfsReadInt_loop (file_server fl short) handle offset uiop t)))
     = uio_data uiop @ take (uio_resid uiop) (drop (unat offset) fl)"
proof (induction "file_server fl short" handle offset uiop t rule: HgfsReadInt_loop.induct)
  case (1 handle offset uiop t)
  let ?sz = "chunk_size uiop"
  let ?n = "served fl short offset ?sz"
  have usz: "unat ?sz = min (uio_resid uiop) 4096"
    by (simp add: unat_chunk_size HGFS_IO_MAX_def)
  have d: "HgfsDoRead (file_server fl short offset ?sz) handle offset ?sz uiop =
           (int ?n,
            (if ?n = 0 then uiop
             else uiop\<lparr>uio_offset := uio_offset uiop + int ?n,
                       uio_resid := uio_resid uiop - ?n,
                       uio_data := uio_data uiop @ take ?n (drop (unat offset) fl)\<rparr>),
            [Ev_Allocate, Ev_Submit (Req_ReadV3 handle offset ?sz) 0, Ev_Release])"
    by (rule HgfsDoRead_file_server) (simp_all add: usz)
  have nle: "?n \<le> min (min (uio_resid uiop) 4096) (length fl - unat offset)"
    using served_le[of fl short offset ?sz] usz by simp
  show ?case
  proof (cases "?n = 0")
    case True
    then have "min (min (uio_resid uiop) 4096) (length fl - unat offset) = 0"
      using served_0[of fl short offset ?sz] usz by simp
    then have "take (uio_resid uiop) (drop (unat offset) fl) = []"
      by (auto simp: min_def split: if_splits)
    then show ?thesis
      using True d by (subst (1 2) HgfsReadInt_loop.simps) (simp add: Let_def)
  next
    case False
    let ?u = "uiop\<lparr>uio_offset := uio_offset uiop + int ?n,
                    uio_resid := uio_resid uiop - ?n,
                    uio_data := uio_data uiop @ take ?n (drop (unat offset) fl)\<rparr>"
    let ?t = "t @ [Ev_Allocate, Ev_Submit (Req_ReadV3 handle offset ?sz) 0, Ev_Release]"
    show ?thesis
    proof (cases "uio_resid uiop - ?n = 0")
      case True
      then have "?n = uio_resid uiop" using nle by linarith
      then show ?thesis
        using False d by (subst (1 2) HgfsReadInt_loop.simps) (simp add: Let_def)
    next
      case more: False
      have adv: "unat (offset + of_int (int ?n)) = unat offset + ?n"
        using 1(2) nle by (intro unat_advance) linarith
      have ih: "fst (HgfsReadInt_loop (file_server fl short) handle
                       (offset + of_int (int ?n)) ?u ?t) = 0 \<and>
                uio_data (fst (snd (HgfsReadInt_loop (file_server fl short) handle
                       (offset + of_int (int ?n)) ?u ?t)))
                  = uio_data ?u
                    @ take (uio_resid ?u) (drop (unat (offset + of_int (int ?n))) fl)"
        using d False more 1(2) nle adv by (intro 1(1)[OF refl refl _ refl]) auto
      have tk: "take ?n (drop (unat offset) fl)
                  @ take (uio_resid uiop - ?n) (drop (unat offset + ?n) fl)
                = take (uio_resid uiop) (drop (unat offset) fl)"
      proof -
        have "take (uio_resid uiop) (drop (unat offset) fl)
                = take (?n + (uio_resid uiop - ?n)) (drop (unat offset) fl)"
          using nle by simp
        also have "\<dots> = take ?n (drop (unat offset) fl)
                          @ take (uio_resid uiop - ?n) (drop ?n (drop (unat offset) fl))"
          by (rule take_add)
        finally show ?thesis by (simp add: add.commute)
      qed
      show ?thesis
        using False more d ih tk adv
        by (subst (1 2) HgfsReadInt_loop.simps) (simp add: Let_def)
    qed
  qed
qed

text \<open>
  Claim C7. A read of \<open>uio_resid\<close> bytes at a non-negative offset, against a server that
  holds a file and answers each READ with at least one and at most the requested number
  of the file's bytes at the requested offset (none at the end of the file), completes
  with success, and the bytes delivered are those of a single unchunked read of the
  range. Whatever the server does, no request of the loop asks for more than
  \<open>HGFS_IO_MAX\<close> bytes.
\<close>

theorem chunked_read_is_unchunked_read:
  assumes off: "0 \<le> uio_offset uiop"
    and fits: "uio_offset uiop + int (uio_resid uiop) < 2 ^ 63"
    and empty: "uio_data uiop = []"
  shows "(\<exists>uiop' t. HgfsReadInt (file_server fl short) False (Some handle) uiop = (0, uiop', t) \<and>
            uio_data uiop' = unchunked_read fl (nat (uio_offset uiop)) (uio_resid uiop)) \<and>
         (\<forall>env is_dir h. \<forall>n \<in> set (read_sizes (snd (snd (HgfsReadInt env is_dir h uiop)))).
            n \<le> HGFS_IO_MAX)"
proof
  let ?o = "of_int (uio_offset uiop) :: 64 word"
  have p: "(2::int) ^ 63 < 2 ^ 64" by simp
  have lt: "uio_offset uiop < 2 ^ 64" using fits p by linarith
  have uo: "unat ?o = nat (uio_offset uiop)"
  proof -
    have "?o = of_nat (nat (uio_offset uiop))" using off by (rule word_of_int_nat)
    moreover have "nat (uio_offset uiop) < 2 ^ 64" using off lt by (simp add: nat_less_iff)
    ultimately show ?thesis by (simp add: unat_of_nat)
  qed
  have "unat ?o + uio_resid uiop < 2 ^ 64"
  proof -
    have "int (unat ?o + uio_resid uiop) < 2 ^ 64" using uo off fits p by simp
    then show ?thesis by (metis of_nat_less_iff of_nat_numeral of_nat_power)
  qed
  from HgfsReadInt_loop_file_server[OF this, of fl short handle "[]"]
  have r: "fst (HgfsReadInt_loop (file_server fl short) handle ?o uiop []) = 0"
    and dt: "uio_data (fst (snd (HgfsReadInt_loop (file_server fl short) handle ?o uiop [])))
               = take (uio_resid uiop) (drop (nat (uio_offset uiop)) fl)"
    using empty uo by simp_all
  obtain ret uiop' t where
    l: "HgfsReadInt_loop (file_server fl short) handle ?o uiop [] = (ret, uiop', t)"
    by (cases "HgfsReadInt_loop (file_server fl short) handle ?o uiop []")
  have "HgfsReadInt (file_server fl short) False (Some handle) uiop = (0, uiop', t)"
    using off l r by (simp add: HgfsReadInt_def)
  moreover have "uio_data uiop' = unchunked_read fl (nat (uio_offset uiop)) (uio_resid uiop)"
    using dt l by (simp add: unchunked_read_def)
  ultimately show "\<exists>uiop' t. HgfsReadInt (file_server fl short) False (Some handle) uiop
                     = (0, uiop', t) \<and>
            uio_data uiop' = unchunked_read fl (nat (uio_offset uiop)) (uio_resid uiop)"
    by blast
next
  show "\<forall>env is_dir h. \<forall>n \<in> set (read_sizes (snd (snd (HgfsReadInt env is_dir h uiop)))).
            n \<le> HGFS_IO_MAX"
  proof (intro allI)
    fix env is_dir h
    show "\<forall>n \<in> set (read_sizes (snd (snd (HgfsReadInt env is_dir h uiop)))). n \<le> HGFS_IO_MAX"
    proof (cases "is_dir \<or> uio_offset uiop < 0 \<or> h = None")
      case True
      then show ?thesis by (auto simp: HgfsReadInt_def)
    next
      case False
      then obtain hd where h: "h = Some hd" by auto
      have "\<forall>n \<in> set (read_sizes (snd (snd (HgfsReadInt_loop env hd
                (of_int (uio_offset uiop)) uiop [])))). n \<le> HGFS_IO_MAX"
        by (rule HgfsReadInt_loop_sizes) simp
      then show ?thesis using False h by (simp add: HgfsReadInt_def)
    qed
  qed
qed


text \<open>The witness: six bytes at offset 2 of a file of ten, from a server that returns
  three bytes at a time.\<close>

theorem chunked_read_is_unchunked_read_witness:
  "0 \<le> uio_offset uio_read6 \<and>
   uio_offset uio_read6 + int (uio_resid uio_read6) < 2 ^ 63 \<and>
   uio_data uio_read6 = [] \<and>
   HgfsReadInt (file_server file10 three_at_most) False (Some 1) uio_read6
     = (0, \<lparr>uio_offset = 8, uio_resid = 0, uio_data = [12, 13, 14, 15, 16, 17]\<rparr>,
        [Ev_Allocate, Ev_Submit (Req_ReadV3 1 2 6) 0, Ev_Release,
         Ev_Allocate, Ev_Submit (Req_ReadV3 1 5 3) 0, Ev_Release]) \<and>
   (\<exists>uiop' t. HgfsReadInt (file_server file10 three_at_most) False (Some 1) uio_read6
                = (0, uiop', t) \<and>
              uio_data uiop'
                = unchunked_read file10 (nat (uio_offset uio_read6)) (uio_resid uio_read6)) \<and>
   unchunked_read file10 (nat (uio_offset uio_read6)) (uio_resid uio_read6)
     = [12, 13, 14, 15, 16, 17] \<and>
   read_sizes (snd (snd (HgfsReadInt (file_server file10 three_at_most) False (Some 1)
                           uio_read6))) = [6, 3]"
proof -
  let ?srv = "file_server file10 three_at_most"
  let ?u0 = "\<lparr>uio_offset = 2, uio_resid = 6, uio_data = []\<rparr> :: 8 word uio"
  let ?u1 = "\<lparr>uio_offset = 5, uio_resid = 3, uio_data = [12, 13, 14]\<rparr> :: 8 word uio"
  let ?u2 = "\<lparr>uio_offset = 8, uio_resid = 0,
              uio_data = [12, 13, 14, 15, 16, 17]\<rparr> :: 8 word uio"
  let ?t1 = "[Ev_Allocate, Ev_Submit (Req_ReadV3 1 2 6) 0, Ev_Release]"
  let ?t2 = "[Ev_Allocate, Ev_Submit (Req_ReadV3 1 5 3) 0, Ev_Release]"
  have a: "0 \<le> uio_offset uio_read6"
    and b: "uio_offset uio_read6 + int (uio_resid uio_read6) < 2 ^ 63"
    and c: "uio_data uio_read6 = []"
    by (simp_all add: uio_read6_def)
  have s1: "served file10 three_at_most 2 6 = 3" and s2: "served file10 three_at_most 5 3 = 3"
    by (simp_all add: served_def three_at_most_def file10_def)
  have up: "[0..<3] = [0, 1, 2]" by (simp add: upt_rec)
  have c0: "chunk_size ?u0 = 6" and c1: "chunk_size ?u1 = 3"
    by (simp_all add: chunk_size_def HGFS_IO_MAX_def)
  have d1: "HgfsDoRead (?srv 2 6) 1 2 6 ?u0 = (3, ?u1, ?t1)"
    by (simp add: HgfsDoRead_def file_server_def s1 uiomove_to_user_def Let_def up)
      (simp add: file10_def)
  have d2: "HgfsDoRead (?srv 5 3) 1 5 3 ?u1 = (3, ?u2, ?t2)"
    by (simp add: HgfsDoRead_def file_server_def s2 uiomove_to_user_def Let_def up)
      (simp add: file10_def)
  have l2: "HgfsReadInt_loop ?srv 1 5 ?u1 ?t1 = (0, ?u2, ?t1 @ ?t2)"
    by (subst HgfsReadInt_loop.simps) (simp add: c1 d2 Let_def del: HgfsReadInt_loop.simps)
  have l1: "HgfsReadInt_loop ?srv 1 2 ?u0 [] = (0, ?u2, ?t1 @ ?t2)"
    by (subst HgfsReadInt_loop.simps) (simp add: c0 d1 l2 Let_def del: HgfsReadInt_loop.simps)
  have e: "HgfsReadInt ?srv False (Some 1) uio_read6
             = (0, ?u2, [Ev_Allocate, Ev_Submit (Req_ReadV3 1 2 6) 0, Ev_Release,
                         Ev_Allocate, Ev_Submit (Req_ReadV3 1 5 3) 0, Ev_Release])"
    using l1 by (simp add: HgfsReadInt_def uio_read6_def del: HgfsReadInt_loop.simps)
  have f: "unchunked_read file10 (nat (uio_offset uio_read6)) (uio_resid uio_read6)
             = [12, 13, 14, 15, 16, 17]"
    by (simp add: unchunked_read_def file10_def uio_read6_def)
  from chunked_read_is_unchunked_read[OF a b c, of file10 three_at_most 1]
  have g: "\<exists>uiop' t. HgfsReadInt ?srv False (Some 1) uio_read6 = (0, uiop', t) \<and>
             uio_data uiop'
               = unchunked_read file10 (nat (uio_offset uio_read6)) (uio_resid uio_read6)"
    by blast
  have h: "read_sizes (snd (snd (HgfsReadInt ?srv False (Some 1) uio_read6))) = [6, 3]"
    by (simp add: e)
  show ?thesis
    using a b c e f g h by (simp only: simp_thms)
qed

subsection \<open>Reading a directory\<close>

text \<open>
  Claim C8. When the reply to a SEARCH_READ is complete and carries a file name of
  length zero, \<open>HgfsGetNextDirEntry\<close> sets \<open>done\<close>, returns 0 and releases its request; the
  readdir loop, in whatever state, then returns 0 with the end-of-file flag set (where
  the caller gave a pointer), has issued that one request and no other, has used no
  further answer of the server, and leaves the entries and the residual count of the
  user's buffer as they were.
\<close>

theorem readdir_ends_on_empty_name:
  assumes "x_alloc x" and "x_submit x = 0" and "x_status x = 0"
    and "repSize_SearchReadV3 abi + sizeof_HgfsDirEntry abi \<le> x_payloadSize x"
    and "de_nameLength x = 0"
  shows "HgfsGetNextDirEntry abi x handle (ucast offset) (sizeof_d_name abi) done
           = \<lparr>er_ret = 0, er_nameOut = None, er_type = None, er_done = True,
              er_trace = [Ev_Allocate, Ev_Submit (Req_SearchReadV3 handle (ucast offset)) 0,
                          Ev_Release]\<rparr> \<and>
         HgfsReaddirInt_loop abi handle (x # xs) offset done uiop eofp t
           = Some \<lparr>rd_ret = 0, rd_uio = uiop\<lparr>uio_offset := sint offset\<rparr>,
                   rd_eof = map_option (\<lambda>b. True) eofp,
                   rd_trace = t @ [Ev_Allocate,
                                   Ev_Submit (Req_SearchReadV3 handle (ucast offset)) 0,
                                   Ev_Release],
                   rd_rest = xs\<rparr>"
proof -
  have e: "HgfsGetNextDirEntry abi x handle (ucast offset) (sizeof_d_name abi) done
           = \<lparr>er_ret = 0, er_nameOut = None, er_type = None, er_done = True,
              er_trace = [Ev_Allocate, Ev_Submit (Req_SearchReadV3 handle (ucast offset)) 0,
                          Ev_Release]\<rparr>"
    using assms by (simp add: HgfsGetNextDirEntry_def Let_def)
  show ?thesis
    by (simp add: e Let_def EOVERFLOW_def)
qed

text \<open>The witness: the directory ends after one entry was delivered; the answer that
  follows the empty name is not used.\<close>

theorem readdir_ends_on_empty_name_witness:
  "x_alloc entry_end \<and> x_submit entry_end = 0 \<and> x_status entry_end = 0 \<and>
   repSize_SearchReadV3 abi0 + sizeof_HgfsDirEntry abi0 \<le> x_payloadSize entry_end \<and>
   de_nameLength entry_end = 0 \<and>
   HgfsReaddirInt abi0 (Some 7) True [entry_a, entry_end, entry_a] uio_dir (Some False)
     = Some \<lparr>rd_ret = 0,
             rd_uio = \<lparr>uio_offset = 1, uio_resid = 528, uio_data = [dirent_a]\<rparr>,
             rd_eof = Some True,
             rd_trace = [Ev_Allocate, Ev_Submit (Req_SearchReadV3 7 0) 0, Ev_Release,
                         Ev_Allocate, Ev_Submit (Req_SearchReadV3 7 1) 0, Ev_Release],
             rd_rest = [entry_a]\<rparr>"
proof -
  have a: "x_alloc entry_end" and b: "x_submit entry_end = 0" and c: "x_status entry_end = 0"
    and d: "repSize_SearchReadV3 abi0 + sizeof_HgfsDirEntry abi0 \<le> x_payloadSize entry_end"
    and e: "de_nameLength entry_end = 0"
    by (simp_all add: entry_end_def abi0_def)
  let ?u = "\<lparr>uio_offset = 264, uio_resid = 528, uio_data = [dirent_a]\<rparr>"
  let ?t = "[Ev_Allocate, Ev_Submit (Req_SearchReadV3 7 0) 0, Ev_Release]"
  have ea: "HgfsGetNextDirEntry abi0 entry_a 7 0 256 False
              = \<lparr>er_ret = 0, er_nameOut = Some ''a'', er_type = Some HGFS_FILE_TYPE_REGULAR,
                 er_done = False, er_trace = ?t\<rparr>"
    by (simp add: HgfsGetNextDirEntry_def entry_a_def abi0_def Let_def upt_rec)
  have first: "HgfsReaddirInt_loop abi0 7 (entry_a # rest) 0 False uio_dir (Some False) []
                 = HgfsReaddirInt_loop abi0 7 rest 1 False ?u (Some False) ?t" for rest
    apply (subst HgfsReaddirInt_loop.simps)
    apply (simp add: abi0_def[THEN arg_cong[where f = sizeof_d_name]] ea del: HgfsReaddirInt_loop.simps)
    apply (simp add: EOVERFLOW_def entry_a_def uio_dir_def abi0_def uiomove_struct_def dirent_a_def Let_def del: HgfsReaddirInt_loop.simps)
    done
  have start: "HgfsReaddirInt abi0 (Some 7) True [entry_a, entry_end, entry_a] uio_dir (Some False)
                 = HgfsReaddirInt_loop abi0 7 (entry_a # [entry_end, entry_a]) 0 False uio_dir
                     (Some False) []"
    by (simp add: HgfsReaddirInt_def uio_dir_def del: HgfsReaddirInt_loop.simps)
  have last: "HgfsReaddirInt_loop abi0 7 (entry_end # [entry_a]) 1 False ?u (Some False) ?t
                = Some \<lparr>rd_ret = 0,
                        rd_uio = \<lparr>uio_offset = 1, uio_resid = 528, uio_data = [dirent_a]\<rparr>,
                        rd_eof = Some True,
                        rd_trace = [Ev_Allocate, Ev_Submit (Req_SearchReadV3 7 0) 0, Ev_Release,
                                    Ev_Allocate, Ev_Submit (Req_SearchReadV3 7 1) 0, Ev_Release],
                        rd_rest = [entry_a]\<rparr>"
    using readdir_ends_on_empty_name[OF a b c d e, of 7 1 False "[entry_a]" ?u "Some False" ?t]
    by (simp del: HgfsReaddirInt_loop.simps)
  show ?thesis
    using a b c d e by (simp only: start first last simp_thms)
qed

text \<open>
  Claim C10. In the readdir loop, an entry whose reply is complete but whose name is too
  long for the caller's name buffer or for the packet (\<open>HgfsGetNextDirEntry\<close> returns
  \<open>EOVERFLOW\<close> and hands out no name), or whose name \<open>HgfsNameFromWireEncoding\<close> cannot
  decode, is skipped: the loop goes on with the next offset and the next answer of the
  server, with the user's buffer, the end-of-file flag and the result left as they were;
  only the request for the entry is added to the trace.
\<close>

theorem readdir_skips_unusable_names:
  assumes ok: "x_alloc x" "x_submit x = 0" "x_status x = 0"
    and whole: "repSize_SearchReadV3 abi + sizeof_HgfsDirEntry abi \<le> x_payloadSize x"
    and name: "de_nameLength x \<noteq> 0"
    and going: "\<not> done"
    and skip: "sizeof_d_name abi \<le> unat (de_nameLength x) \<or>
               HGFS_PAYLOAD_MAX abi (repSize_SearchReadV3 abi + sizeof_HgfsDirEntry abi)
                 < unat (de_nameLength x) \<or>
               de_decode x < 0"
  shows "HgfsReaddirInt_loop abi handle (x # xs) offset done uiop eofp t
           = HgfsReaddirInt_loop abi handle xs (offset + 1) done uiop eofp
               (t @ [Ev_Allocate, Ev_Submit (Req_SearchReadV3 handle (ucast offset)) 0,
                     Ev_Release]) \<and>
         (sizeof_d_name abi \<le> unat (de_nameLength x) \<or>
          HGFS_PAYLOAD_MAX abi (repSize_SearchReadV3 abi + sizeof_HgfsDirEntry abi)
            < unat (de_nameLength x) \<longrightarrow>
            HgfsGetNextDirEntry abi x handle (ucast offset) (sizeof_d_name abi) done
              = \<lparr>er_ret = EOVERFLOW, er_nameOut = None, er_type = None, er_done = done,
                 er_trace = [Ev_Allocate,
                             Ev_Submit (Req_SearchReadV3 handle (ucast offset)) 0,
                             Ev_Release]\<rparr>)"
proof (cases "sizeof_d_name abi \<le> unat (de_nameLength x) \<or>
              HGFS_PAYLOAD_MAX abi (repSize_SearchReadV3 abi + sizeof_HgfsDirEntry abi)
                < unat (de_nameLength x)")
  case True
  have e: "HgfsGetNextDirEntry abi x handle (ucast offset) (sizeof_d_name abi) done
             = \<lparr>er_ret = EOVERFLOW, er_nameOut = None, er_type = None, er_done = done,
                er_trace = [Ev_Allocate,
                            Ev_Submit (Req_SearchReadV3 handle (ucast offset)) 0,
                            Ev_Release]\<rparr>"
    using ok whole name True by (auto simp: HgfsGetNextDirEntry_def Let_def)
  show ?thesis
    using True by (subst HgfsReaddirInt_loop.simps) (simp add: e Let_def)
next
  case False
  with skip have dec: "de_decode x < 0" by blast
  have e: "HgfsGetNextDirEntry abi x handle (ucast offset) (sizeof_d_name abi) False
             = \<lparr>er_ret = 0,
                er_nameOut = Some (map (de_name x) [0..<unat (de_nameLength x)]),
                er_type = Some (de_type x), er_done = False,
                er_trace = [Ev_Allocate,
                            Ev_Submit (Req_SearchReadV3 handle (ucast offset)) 0,
                            Ev_Release]\<rparr>"
    using ok whole name False by (auto simp: HgfsGetNextDirEntry_def Let_def)
  show ?thesis
    using False dec going
    by (subst HgfsReaddirInt_loop.simps) (simp add: e Let_def EOVERFLOW_def)
qed

text \<open>The witness: a directory whose first name is too long and whose second name cannot
  be decoded; both are skipped, nothing is delivered and the readdir ends with success
  at the empty name.\<close>

theorem readdir_skips_unusable_names_witness:
  "x_alloc entry_long \<and> x_submit entry_long = 0 \<and> x_status entry_long = 0 \<and>
   repSize_SearchReadV3 abi0 + sizeof_HgfsDirEntry abi0 \<le> x_payloadSize entry_long \<and>
   de_nameLength entry_long \<noteq> 0 \<and>
   sizeof_d_name abi0 \<le> unat (de_nameLength entry_long) \<and>
   x_alloc entry_undecodable \<and> x_submit entry_undecodable = 0 \<and>
   x_status entry_undecodable = 0 \<and>
   repSize_SearchReadV3 abi0 + sizeof_HgfsDirEntry abi0 \<le> x_payloadSize entry_undecodable \<and>
   de_nameLength entry_undecodable \<noteq> 0 \<and> de_decode entry_undecodable < 0 \<and>
   HgfsReaddirInt abi0 (Some 7) True [entry_long, entry_undecodable, entry_end] uio_dir
       (Some False)
     = Some \<lparr>rd_ret = 0,
             rd_uio = \<lparr>uio_offset = 2, uio_resid = 792, uio_data = []\<rparr>,
             rd_eof = Some True,
             rd_trace = [Ev_Allocate, Ev_Submit (Req_SearchReadV3 7 0) 0, Ev_Release,
                         Ev_Allocate, Ev_Submit (Req_SearchReadV3 7 1) 0, Ev_Release,
                         Ev_Allocate, Ev_Submit (Req_SearchReadV3 7 2) 0, Ev_Release],
             rd_rest = []\<rparr>"
proof -
  let ?t0 = "[Ev_Allocate, Ev_Submit (Req_SearchReadV3 7 0) 0, Ev_Release]"
  let ?t1 = "[Ev_Allocate, Ev_Submit (Req_SearchReadV3 7 1) 0, Ev_Release]"
  have a: "x_alloc entry_long" and b: "x_submit entry_long = 0" and c: "x_status entry_long = 0"
    and d: "repSize_SearchReadV3 abi0 + sizeof_HgfsDirEntry abi0 \<le> x_payloadSize entry_long"
    and e: "de_nameLength entry_long \<noteq> 0"
    and f: "sizeof_d_name abi0 \<le> unat (de_nameLength entry_long)"
    by (simp_all add: entry_long_def abi0_def)
  have a': "x_alloc entry_undecodable" and b': "x_submit entry_undecodable = 0"
    and c': "x_status entry_undecodable = 0"
    and d': "repSize_SearchReadV3 abi0 + sizeof_HgfsDirEntry abi0
               \<le> x_payloadSize entry_undecodable"
    and e': "de_nameLength entry_undecodable \<noteq> 0"
    and f': "de_decode entry_undecodable < 0"
    by (simp_all add: entry_undecodable_def abi0_def)
  have g: "\<not> False" by simp
  have s1: "HgfsReaddirInt_loop abi0 7 (entry_long # [entry_undecodable, entry_end]) 0 False
              uio_dir (Some False) []
            = HgfsReaddirInt_loop abi0 7 [entry_undecodable, entry_end] (0 + 1) False uio_dir
                (Some False) ([] @ [Ev_Allocate, Ev_Submit (Req_SearchReadV3 7 (ucast (0 :: 64 word))) 0, Ev_Release])"
    using readdir_skips_unusable_names[OF a b c d e g, of 7 "[entry_undecodable, entry_end]"
        0 uio_dir "Some False" "[]"] f
    by blast
  have s2: "HgfsReaddirInt_loop abi0 7 (entry_undecodable # [entry_end]) 1 False
              uio_dir (Some False) ?t0
            = HgfsReaddirInt_loop abi0 7 [entry_end] (1 + 1) False uio_dir
                (Some False) (?t0 @ [Ev_Allocate, Ev_Submit (Req_SearchReadV3 7 (ucast (1 :: 64 word))) 0, Ev_Release])"
    using readdir_skips_unusable_names[OF a' b' c' d' e' g, of 7 "[entry_end]"
        1 uio_dir "Some False" ?t0] f'
    by blast
  have s3: "HgfsReaddirInt_loop abi0 7 [entry_end] 2 False uio_dir (Some False) (?t0 @ ?t1)
             = Some \<lparr>rd_ret = 0,
             rd_uio = \<lparr>uio_offset = 2, uio_resid = 792, uio_data = []\<rparr>,
             rd_eof = Some True,
             rd_trace = [Ev_Allocate, Ev_Submit (Req_SearchReadV3 7 0) 0, Ev_Release,
                         Ev_Allocate, Ev_Submit (Req_SearchReadV3 7 1) 0, Ev_Release,
                         Ev_Allocate, Ev_Submit (Req_SearchReadV3 7 2) 0, Ev_Release],
             rd_rest = []\<rparr>"
    by (simp add: HgfsGetNextDirEntry_def entry_end_def abi0_def uio_dir_def EOVERFLOW_def Let_def)
  have start: "HgfsReaddirInt abi0 (Some 7) True [entry_long, entry_undecodable, entry_end]
                 uio_dir (Some False)
               = HgfsReaddirInt_loop abi0 7 (entry_long # [entry_undecodable, entry_end]) 0
                   False uio_dir (Some False) []"
    by (simp add: HgfsReaddirInt_def uio_dir_def del: HgfsReaddirInt_loop.simps)
  have "HgfsReaddirInt abi0 (Some 7) True [entry_long, entry_undecodable, entry_end]
                 uio_dir (Some False)
       = HgfsReaddirInt_loop abi0 7 [entry_end] 2 False uio_dir (Some False) (?t0 @ ?t1)"
    using s1 s2 unfolding start by (simp del: HgfsReaddirInt_loop.simps)
  with s3 a b c d e f a' b' c' d' e' f' show ?thesis by (simp del: HgfsReaddirInt_loop.simps)
qed

end
